theory Spec2Isabelle
  imports Complex_Main "HOL-Library.AList" "HOL-Library.Multiset" "HOL-Library.Word"
begin

unbundle bit_operations_syntax

section \<open>Scheduler API: resources, priority queue, session\<close>

subsection \<open>Resource (pkg/scheduler/api, not among the sources)\<close>

text \<open>
  Modelled from the spec: the type \<open>api.Resource\<close> and its operations are used by
  \<open>enqueue.go\<close> but defined elsewhere. The spec describes a resource as a vector of
  named scalars (CPU in milli-units, memory in bytes, further named scalars) with
  dimension-wise arithmetic in which a missing dimension counts as zero on both sides.
  The float64 quantities of the code are idealised as exact rationals.
\<close>

type_synonym Resource = "(string \<times> rat) list"

definition EmptyResource :: Resource where
  "EmptyResource = []"

definition quantity :: "Resource \<Rightarrow> string \<Rightarrow> rat" where
  "quantity r n = (case map_of r n of None \<Rightarrow> 0 | Some v \<Rightarrow> v)"

definition dimensions :: "Resource \<Rightarrow> Resource \<Rightarrow> string list" where
  "dimensions r rr = remdups (map fst r @ map fst rr)"

definition Add :: "Resource \<Rightarrow> Resource \<Rightarrow> Resource" where
  "Add r rr = map (\<lambda>n. (n, quantity r n + quantity rr n)) (dimensions r rr)"

definition Sub :: "Resource \<Rightarrow> Resource \<Rightarrow> Resource" where
  "Sub r rr = map (\<lambda>n. (n, quantity r n - quantity rr n)) (dimensions r rr)"

definition Multi :: "Resource \<Rightarrow> rat \<Rightarrow> Resource" where
  "Multi r ratio = map (\<lambda>(n, v). (n, v * ratio)) r"

definition Clone :: "Resource \<Rightarrow> Resource" where
  "Clone r = r"

definition LessEqual :: "Resource \<Rightarrow> Resource \<Rightarrow> bool" where
  "LessEqual r rr = list_all (\<lambda>n. quantity r n \<le> quantity rr n) (dimensions r rr)"

text \<open>A resource is empty when it has no positive quantity in any dimension.\<close>

definition IsEmpty :: "Resource \<Rightarrow> bool" where
  "IsEmpty r = list_all (\<lambda>n. quantity r n \<le> 0) (map fst r)"

subsection \<open>PriorityQueue (pkg/scheduler/util, not among the sources)\<close>

text \<open>
  Modelled from the spec: a min-queue parameterised by an ordering function
  \<open>lessFn\<close> given at construction, with \<open>Push\<close>, \<open>Pop\<close> and \<open>Empty\<close>; stability is
  not required. The queue is kept as a list whose head is the next element popped;
  \<open>Push\<close> inserts in front of the first element the new one is less than.
\<close>

type_synonym 'a PriorityQueue = "'a list"

fun Push :: "('a \<Rightarrow> 'a \<Rightarrow> bool) \<Rightarrow> 'a \<Rightarrow> 'a PriorityQueue \<Rightarrow> 'a PriorityQueue" where
  "Push lessFn x [] = [x]"
| "Push lessFn x (y # ys) = (if lessFn x y then x # y # ys else y # Push lessFn x ys)"

definition Empty :: "'a PriorityQueue \<Rightarrow> bool" where
  "Empty pq = (pq = [])"

text \<open>\<open>Pop\<close> of a non-empty queue is written as the pattern \<open>x # rest\<close> where it is used.\<close>

subsection \<open>Jobs, queues, nodes and the session\<close>

type_synonym QueueID = string
type_synonym JobID = string
type_synonym QueueState = string

definition QueueStateOpen :: QueueState where
  "QueueStateOpen = ''Open''"

definition QueueStateClosed :: QueueState where
  "QueueStateClosed = ''Closed''"

datatype PodGroupPhase =
  PodGroupPending | PodGroupRunning | PodGroupUnknown | PodGroupInqueue | PodGroupCompleted

text \<open>
  \<open>api.JobInfo\<close> with the fields \<open>Execute\<close> reads: \<open>MinResources\<close> is
  \<open>job.PodGroup.Spec.MinResources\<close> (a pointer, \<open>None\<close> for nil) already converted by
  \<open>api.NewResource\<close>, and \<open>Phase\<close> is \<open>job.PodGroup.Status.Phase\<close>.
\<close>

record JobInfo =
  jUID :: JobID
  jNamespace :: string
  jName :: string
  jQueue :: QueueID
  MinResources :: "Resource option"
  Phase :: PodGroupPhase

text \<open>\<open>api.QueueInfo\<close>; \<open>qState\<close> is \<open>queue.Queue.Status.State\<close>.\<close>

record QueueInfo =
  qUID :: QueueID
  qName :: string
  qWeight :: int
  qState :: QueueState

record NodeInfo =
  nName :: string
  Allocatable :: Resource
  Used :: Resource

text \<open>
  Modelled from the spec: \<open>conf.Configuration\<close> and \<open>framework.Arguments\<close> (a map from
  argument name to its text) are defined outside the sources. The text of an argument is
  represented by what parsing it as a float yields, \<open>None\<close> when it is empty or does not
  parse; \<open>GetFloat64\<close> then leaves the value it was given unchanged.
\<close>

type_synonym Arguments = "(string \<times> rat option) list"

record Configuration =
  cName :: string
  cArguments :: Arguments

definition GetFloat64 :: "Arguments \<Rightarrow> rat \<Rightarrow> string \<Rightarrow> rat" where
  "GetFloat64 a ptr key =
     (case map_of a key of
        None \<Rightarrow> ptr
      | Some None \<Rightarrow> ptr
      | Some (Some v) \<Rightarrow> v)"

fun GetArgOfActionFromConf :: "Configuration list \<Rightarrow> string \<Rightarrow> Arguments option" where
  "GetArgOfActionFromConf [] actionName = None"
| "GetArgOfActionFromConf (c # cs) actionName =
     (if cName c = actionName then Some (cArguments c) else GetArgOfActionFromConf cs actionName)"

text \<open>
  \<open>framework.Session\<close> as \<open>Execute\<close> sees it. \<open>ssn.Jobs\<close> is a map from job UID to a
  pointer to the job; it is modelled by the list of the job objects in the order in which
  \<open>range\<close> visits them, and a pointer to a job is its index in that list. \<open>ssn.Queues\<close>
  is looked up by key only. The callbacks composed from the plugins are fields.
\<close>

record Session =
  Jobs :: "JobInfo list"
  Queues :: "(QueueID \<times> QueueInfo) list"
  Nodes :: "NodeInfo list"
  Configurations :: "Configuration list"
  QueueOrderFn :: "QueueInfo \<Rightarrow> QueueInfo \<Rightarrow> bool"
  JobOrderFn :: "JobInfo \<Rightarrow> JobInfo \<Rightarrow> bool"
  JobEnqueueable :: "JobInfo \<Rightarrow> bool"

section \<open>The enqueue action (pkg/scheduler/actions/enqueue/enqueue.go)\<close>

definition overCommitFactor :: string where
  "overCommitFactor = ''overcommit-factor''"

definition defaultOverCommitFactor :: rat where
  "defaultOverCommitFactor = 12 / 10"

definition enqueue_Name :: string where
  "enqueue_Name = ''enqueue''"

definition getOverCommitFactor :: "Session \<Rightarrow> rat" where
  "getOverCommitFactor ssn =
     (let factor = defaultOverCommitFactor in
      case GetArgOfActionFromConf (Configurations ssn) enqueue_Name of
        None \<Rightarrow> factor
      | Some arg \<Rightarrow> GetFloat64 arg factor overCommitFactor)"

text \<open>
  The local state of \<open>Execute\<close>: the queue of queues, \<open>queueMap\<close>, the per-queue job
  queues \<open>jobsMap\<close> (holding job pointers), the remaining \<open>idle\<close> resource and the job
  objects, whose phase the loop updates in place.
\<close>

record EnqueueState =
  queues :: "QueueInfo PriorityQueue"
  queueMap :: "(QueueID \<times> QueueInfo) list"
  jobsMap :: "(QueueID \<times> nat PriorityQueue) list"
  idle :: Resource
  jobs :: "JobInfo list"

text \<open>The body of the first loop, for the job at index \<open>i\<close> of \<open>ssn.Jobs\<close>.\<close>

definition collect_job :: "Session \<Rightarrow> EnqueueState \<Rightarrow> nat \<Rightarrow> EnqueueState" where
  "collect_job ssn st i =
     (let job = Jobs ssn ! i in
      case map_of (Queues ssn) (jQueue job) of
        None \<Rightarrow> st
      | Some queue \<Rightarrow>
          let st1 = (if map_of (queueMap st) (qUID queue) = None
                     then st\<lparr>queueMap := AList.update (qUID queue) queue (queueMap st),
                             queues := Push (QueueOrderFn ssn) queue (queues st)\<rparr>
                     else st)
          in if Phase job = PodGroupPending
             then st1\<lparr>jobsMap :=
                    AList.update (jQueue job)
                      (Push (\<lambda>l r. JobOrderFn ssn (Jobs ssn ! l) (Jobs ssn ! r)) i
                         (case map_of (jobsMap st1) (jQueue job) of None \<Rightarrow> [] | Some pq \<Rightarrow> pq))
                      (jobsMap st1)\<rparr>
             else st1)"

text \<open>The sums over \<open>ssn.Nodes\<close>.\<close>

definition total_allocatable :: "NodeInfo list \<Rightarrow> Resource" where
  "total_allocatable ns = foldl (\<lambda>total node. Add total (Allocatable node)) EmptyResource ns"

definition total_used :: "NodeInfo list \<Rightarrow> Resource" where
  "total_used ns = foldl (\<lambda>used node. Add used (Used node)) EmptyResource ns"

definition initial_idle :: "Session \<Rightarrow> Resource" where
  "initial_idle ssn =
     Sub (Multi (Clone (total_allocatable (Nodes ssn))) (getOverCommitFactor ssn))
         (total_used (Nodes ssn))"

definition enqueue_init :: "Session \<Rightarrow> EnqueueState" where
  "enqueue_init ssn =
     (foldl (collect_job ssn)
        \<lparr>queues = [], queueMap = [], jobsMap = [], idle = EmptyResource, jobs = Jobs ssn\<rparr>
        [0 ..< length (Jobs ssn)])
     \<lparr>idle := initial_idle ssn\<rparr>"

text \<open>
  One iteration of the main loop: \<open>None\<close> is \<open>break\<close>, \<open>Some st'\<close> the state with which
  the next iteration starts (after \<open>continue\<close> or after the queue was pushed back).
\<close>

definition enqueue_iter :: "Session \<Rightarrow> EnqueueState \<Rightarrow> EnqueueState option" where
  "enqueue_iter ssn st =
     (case queues st of
        [] \<Rightarrow> None
      | queue # qs \<Rightarrow>
          if IsEmpty (idle st) then None
          else
            (case map_of (jobsMap st) (qUID queue) of
               None \<Rightarrow> Some (st\<lparr>queues := qs\<rparr>)
             | Some [] \<Rightarrow> Some (st\<lparr>queues := qs\<rparr>)
             | Some (i # rest) \<Rightarrow>
                 let job = jobs st ! i;
                     st1 = st\<lparr>queues := qs, jobsMap := AList.update (qUID queue) rest (jobsMap st)\<rparr>;
                     (inqueue, st2) =
                       (case MinResources job of
                          None \<Rightarrow> (True, st1)
                        | Some minReq \<Rightarrow>
                            if JobEnqueueable ssn job \<and> LessEqual minReq (idle st1)
                            then (True, st1\<lparr>idle := Sub (idle st1) minReq\<rparr>)
                            else (False, st1));
                     st3 = (if inqueue
                            then st2\<lparr>jobs := (jobs st2)[i := job\<lparr>Phase := PodGroupInqueue\<rparr>]\<rparr>
                            else st2)
                 in Some (st3\<lparr>queues := Push (QueueOrderFn ssn) queue (queues st3)\<rparr>)))"

partial_function (option) enqueue_loop :: "Session \<Rightarrow> EnqueueState \<Rightarrow> EnqueueState option" where
  "enqueue_loop ssn st =
     (case enqueue_iter ssn st of
        None \<Rightarrow> Some st
      | Some st' \<Rightarrow> enqueue_loop ssn st')"

declare enqueue_loop.simps [code]

text \<open>
  \<open>Execute\<close> returns the session with the job objects as the loop left them; \<open>None\<close>
  stands for a run that does not return.
\<close>

definition Execute :: "Session \<Rightarrow> Session option" where
  "Execute ssn = map_option (\<lambda>st. ssn\<lparr>Jobs := jobs st\<rparr>) (enqueue_loop ssn (enqueue_init ssn))"

subsection \<open>Notions used to state the properties of the enqueue action\<close>

text \<open>One iteration of the main loop as a relation, and the states \<open>Execute\<close> passes through.\<close>

definition enqueue_step :: "Session \<Rightarrow> EnqueueState \<Rightarrow> EnqueueState \<Rightarrow> bool" where
  "enqueue_step ssn st st' = (enqueue_iter ssn st = Some st')"

definition enqueue_reachable :: "Session \<Rightarrow> EnqueueState \<Rightarrow> bool" where
  "enqueue_reachable ssn st = (enqueue_step ssn)\<^sup>*\<^sup>* (enqueue_init ssn) st"

text \<open>The job pointers held by the per-queue job queues, and the size of what is left to do.\<close>

definition heap_entries :: "EnqueueState \<Rightarrow> nat list" where
  "heap_entries st = concat (map snd (jobsMap st))"

definition enqueue_measure :: "EnqueueState \<Rightarrow> nat" where
  "enqueue_measure st = length (queues st) + length (heap_entries st)"

text \<open>
  The admission test in the words of the specification: a job without \<open>MinResources\<close>
  is admitted unconditionally, any other job exactly when \<open>JobEnqueueable\<close> holds and its
  \<open>MinResources\<close> fit into the remaining idle resource.
\<close>

definition admission_test :: "Session \<Rightarrow> JobInfo \<Rightarrow> Resource \<Rightarrow> bool" where
  "admission_test ssn job idleRes =
     (case MinResources job of
        None \<Rightarrow> True
      | Some minReq \<Rightarrow> JobEnqueueable ssn job \<and> LessEqual minReq idleRes)"

text \<open>The jobs that the first loop puts into a job queue.\<close>

definition collected :: "Session \<Rightarrow> nat \<Rightarrow> bool" where
  "collected ssn i =
     (i < length (Jobs ssn) \<and> map_of (Queues ssn) (jQueue (Jobs ssn ! i)) \<noteq> None \<and>
      Phase (Jobs ssn ! i) = PodGroupPending)"

text \<open>
  The quantity, in dimension \<open>d\<close>, of the \<open>MinResources\<close> of a job (zero for nil), and
  its sum over the jobs that are \<open>Pending\<close> in the first list and \<open>Inqueue\<close> at the same
  position of the second.
\<close>

definition minResQuantity :: "JobInfo \<Rightarrow> string \<Rightarrow> rat" where
  "minResQuantity job d = (case MinResources job of None \<Rightarrow> 0 | Some minReq \<Rightarrow> quantity minReq d)"

definition movedToInqueue :: "JobInfo \<times> JobInfo \<Rightarrow> bool" where
  "movedToInqueue p = (Phase (fst p) = PodGroupPending \<and> Phase (snd p) = PodGroupInqueue)"

definition admittedMinResources :: "JobInfo list \<Rightarrow> JobInfo list \<Rightarrow> string \<Rightarrow> rat" where
  "admittedMinResources before after d =
     (\<Sum>p\<leftarrow>filter movedToInqueue (zip before after). minResQuantity (fst p) d)"



text \<open>The session with the state of every queue replaced by what \<open>f\<close> gives for it.\<close>

definition set_queue_state :: "(QueueInfo \<Rightarrow> QueueState) \<Rightarrow> QueueInfo \<Rightarrow> QueueInfo" where
  "set_queue_state f q = q\<lparr>qState := f q\<rparr>"

definition set_queue_states :: "(QueueInfo \<Rightarrow> QueueState) \<Rightarrow> Session \<Rightarrow> Session" where
  "set_queue_states f ssn =
     ssn\<lparr>Queues := map (\<lambda>kq. (fst kq, set_queue_state f (snd kq))) (Queues ssn)\<rparr>"

definition set_queue_states_st :: "(QueueInfo \<Rightarrow> QueueState) \<Rightarrow> EnqueueState \<Rightarrow> EnqueueState" where
  "set_queue_states_st f st =
     st\<lparr>queues := map (set_queue_state f) (queues st),
        queueMap := map (\<lambda>kq. (fst kq, set_queue_state f (snd kq))) (queueMap st)\<rparr>"

text \<open>
  The invariant of the main loop: the job queues hold distinct pointers to collected jobs
  that are still as the session had them, and every other job is unchanged or was a
  collected job that has been admitted.
\<close>

definition enqueue_inv :: "Session \<Rightarrow> EnqueueState \<Rightarrow> bool" where
  "enqueue_inv ssn st =
     (length (jobs st) = length (Jobs ssn) \<and> distinct (heap_entries st) \<and>
      (\<forall>i \<in> set (heap_entries st). collected ssn i \<and> jobs st ! i = Jobs ssn ! i) \<and>
      (\<forall>i < length (Jobs ssn).
         jobs st ! i = Jobs ssn ! i \<or>
         (collected ssn i \<and> i \<notin> set (heap_entries st) \<and>
          jobs st ! i = (Jobs ssn ! i)\<lparr>Phase := PodGroupInqueue\<rparr>)))"


section \<open>The controllers\<close>

subsection \<open>The rate-limiting work queue (k8s.io/client-go/util/workqueue)\<close>

text \<open>
  The work queue of the client library, as the controllers use it through
  \<open>workqueue.RateLimitingInterface\<close>, with the documented behaviour of the library: an
  item is queued at most once (\<open>dirty\<close>), an item added while it is processed is queued
  again by \<open>Done\<close>, \<open>AddAfter\<close> holds an item back for a delay, and the item-exponential
  failure limiter of \<open>DefaultControllerRateLimiter\<close> delays the n-th retry of an item by
  \<open>5ms * 2^n\<close>, capped at 1000s. Durations are in nanoseconds. The token bucket (10 qps)
  that the default limiter also consults depends on real time and is left out; it can only
  lengthen a delay.
\<close>

type_synonym Duration = int

record 'a WorkQueue =
  wq_queue :: "'a list"
  wq_dirty :: "'a set"
  wq_processing :: "'a set"
  wq_shuttingDown :: bool
  wq_waiting :: "('a \<times> Duration) list"
  wq_failures :: "'a \<Rightarrow> nat"

datatype 'a QueueGet = WaitsForItem | ShutDown | GotItem 'a "'a WorkQueue"

definition wq_Add :: "'a WorkQueue \<Rightarrow> 'a \<Rightarrow> 'a WorkQueue" where
  "wq_Add q item =
     (if wq_shuttingDown q then q
      else if item \<in> wq_dirty q then q
      else let q1 = q\<lparr>wq_dirty := insert item (wq_dirty q)\<rparr>
           in if item \<in> wq_processing q1 then q1
              else q1\<lparr>wq_queue := wq_queue q1 @ [item]\<rparr>)"

definition wq_Get :: "'a WorkQueue \<Rightarrow> 'a QueueGet" where
  "wq_Get q =
     (case wq_queue q of
        [] \<Rightarrow> if wq_shuttingDown q then ShutDown else WaitsForItem
      | item # rest \<Rightarrow>
          GotItem item (q\<lparr>wq_queue := rest,
                          wq_processing := insert item (wq_processing q),
                          wq_dirty := wq_dirty q - {item}\<rparr>))"

definition wq_Done :: "'a WorkQueue \<Rightarrow> 'a \<Rightarrow> 'a WorkQueue" where
  "wq_Done q item =
     (let q1 = q\<lparr>wq_processing := wq_processing q - {item}\<rparr>
      in if item \<in> wq_dirty q1 then q1\<lparr>wq_queue := wq_queue q1 @ [item]\<rparr> else q1)"

definition wq_AddAfter :: "'a WorkQueue \<Rightarrow> 'a \<Rightarrow> Duration \<Rightarrow> 'a WorkQueue" where
  "wq_AddAfter q item duration =
     (if wq_shuttingDown q then q
      else if duration \<le> 0 then wq_Add q item
      else q\<lparr>wq_waiting := wq_waiting q @ [(item, duration)]\<rparr>)"

definition baseDelay :: Duration where
  "baseDelay = 5 * 1000000"

definition maxDelay :: Duration where
  "maxDelay = 1000 * 1000000000"

definition wq_When :: "'a WorkQueue \<Rightarrow> 'a \<Rightarrow> Duration \<times> 'a WorkQueue" where
  "wq_When q item =
     (let exp = wq_failures q item;
          q1 = q\<lparr>wq_failures := (wq_failures q)(item := exp + 1)\<rparr>;
          backoff = baseDelay * 2 ^ exp
      in (if backoff > maxDelay then maxDelay else backoff, q1))"

definition wq_NumRequeues :: "'a WorkQueue \<Rightarrow> 'a \<Rightarrow> int" where
  "wq_NumRequeues q item = int (wq_failures q item)"

definition wq_Forget :: "'a WorkQueue \<Rightarrow> 'a \<Rightarrow> 'a WorkQueue" where
  "wq_Forget q item = q\<lparr>wq_failures := (wq_failures q)(item := 0)\<rparr>"

definition wq_AddRateLimited :: "'a WorkQueue \<Rightarrow> 'a \<Rightarrow> 'a WorkQueue" where
  "wq_AddRateLimited q item = (case wq_When q item of (duration, q1) \<Rightarrow> wq_AddAfter q1 item duration)"

subsection \<open>Batch jobs (pkg/apis/batch/v1alpha1)\<close>

text \<open>A time is a number of nanoseconds since the zero time; the zero time is 0.\<close>

type_synonym Time = int

definition IsZero :: "Time \<Rightarrow> bool" where
  "IsZero t = (t = 0)"

definition Second :: Duration where
  "Second = 1000000000"

datatype JobPhase =
  Pending | Aborting | Aborted | Running | Restarting | Completing | Completed
  | Terminating | Terminated | Failed

text \<open>
  \<open>v1alpha1.Job\<close> with the fields the controllers read: \<open>jobPhase\<close> is
  \<open>Status.State.Phase\<close>, \<open>LastTransitionTime\<close> is \<open>Status.State.LastTransitionTime\<close> and
  \<open>TTLSecondsAfterFinished\<close> is the pointer \<open>Spec.TTLSecondsAfterFinished\<close>.
\<close>

record Job =
  jobNamespace :: string
  jobName :: string
  jobUID :: string
  DeletionTimestamp :: "Time option"
  TTLSecondsAfterFinished :: "int option"
  jobPhase :: JobPhase
  LastTransitionTime :: Time

subsection \<open>The job controller (pkg/controllers/job/job_controller.go)\<close>

definition maxRetries :: int where
  "maxRetries = 15"

type_synonym Action = string

definition SyncJobAction :: Action where
  "SyncJobAction = ''SyncJob''"

definition ExecuteAction :: string where
  "ExecuteAction = ''ExecuteAction''"

record Request =
  rNamespace :: string
  rJobName :: string
  rTaskName :: string
  rEvent :: string
  rExitCode :: int
  rAction :: Action
  rJobVersion :: int

record apis_JobInfo =
  Job :: Job

record JobEvent =
  evNamespace :: string
  evName :: string
  evReason :: string
  evMessage :: string

text \<open>
  What \<open>processNextReq\<close> calls outside this file is given by an environment: the key of
  a request, the job cache, the state of the job state machine built for a job (\<open>None\<close>
  for nil), the action chosen by the policies, and the outcome of executing an action in
  a state (\<open>None\<close> for a nil error). What executing an action does to the cluster is not
  modelled.
\<close>

record 's JobEnv =
  JobKeyByReq :: "Request \<Rightarrow> string"
  cache_Get :: "string \<Rightarrow> string + apis_JobInfo"
  NewState :: "apis_JobInfo \<Rightarrow> 's option"
  applyPolicies :: "Job \<Rightarrow> Request \<Rightarrow> Action"
  st_Execute :: "'s \<Rightarrow> Action \<Rightarrow> string option"

record Controller =
  queueList :: "Request WorkQueue list"
  workers :: "32 word"
  recorded :: "JobEvent list"

datatype 'a Outcome = Panic string | Blocked | Return 'a

text \<open>The 32-bit FNV-1 hash of \<open>hash/fnv\<close>.\<close>

definition fnv32 :: "string \<Rightarrow> 32 word" where
  "fnv32 key = foldl (\<lambda>h c. (h * 16777619) XOR of_nat (of_char c)) 2166136261 key"

definition belongsToThisRoutine :: "Controller \<Rightarrow> string \<Rightarrow> 32 word \<Rightarrow> bool" where
  "belongsToThisRoutine cc key cnt = (fnv32 key mod workers cc = cnt)"

text \<open>An operation on the queue at index \<open>i\<close> of \<open>queueList\<close>, which is updated in place.\<close>

definition onQueue ::
  "nat \<Rightarrow> (Request WorkQueue \<Rightarrow> Request WorkQueue) \<Rightarrow> Controller \<Rightarrow> Controller" where
  "onQueue i f cc = cc\<lparr>queueList := (queueList cc)[i := f (queueList cc ! i)]\<rparr>"

text \<open>
  Modelled from the spec: \<open>recordJobEvent\<close> is defined outside the sources; the spec
  lists \<open>RecordEvent(object, type, reason, message)\<close> among the operations issued. The
  events recorded are kept in a log.
\<close>

definition recordJobEvent :: "string \<Rightarrow> string \<Rightarrow> string \<Rightarrow> string \<Rightarrow> Controller \<Rightarrow> Controller" where
  "recordJobEvent namespace name event message cc =
     cc\<lparr>recorded := recorded cc @
          [\<lparr>evNamespace = namespace, evName = name, evReason = event, evMessage = message\<rparr>]\<rparr>"

text \<open>
  \<open>processNextReq\<close>, with the index \<open>count\<close> of the worker written \<open>cnt\<close>. The deferred \<open>queue.Done(req)\<close> runs on every return after
  \<open>Get\<close>. A division by zero or an index out of range is a panic.
\<close>

definition processNextReq :: "'s JobEnv \<Rightarrow> Controller \<Rightarrow> 32 word \<Rightarrow> (bool \<times> Controller) Outcome" where
  "processNextReq env cc cnt =
     (if \<not> unat cnt < length (queueList cc) then Panic ''index out of range''
      else
        case wq_Get (queueList cc ! unat cnt) of
          WaitsForItem \<Rightarrow> Blocked
        | ShutDown \<Rightarrow> Return (False, cc)
        | GotItem req queue \<Rightarrow>
            let cc1 = onQueue (unat cnt) (\<lambda>_. queue) cc;
                done = onQueue (unat cnt) (\<lambda>q. wq_Done q req);
                key = JobKeyByReq env req
            in
              if workers cc1 = 0 then Panic ''integer divide by zero''
              else if \<not> belongsToThisRoutine cc1 key cnt then
                (let idx = unat (fnv32 key mod workers cc1) in
                 if \<not> idx < length (queueList cc1) then Panic ''index out of range''
                 else Return (True, done (onQueue idx (\<lambda>q. wq_Add q req) cc1)))
              else
                (case cache_Get env key of
                   Inl err \<Rightarrow> Return (True, done cc1)
                 | Inr jobInfo \<Rightarrow>
                     (case NewState env jobInfo of
                        None \<Rightarrow> Return (True, done cc1)
                      | Some st \<Rightarrow>
                          let action = applyPolicies env (Job jobInfo) req;
                              cc2 = (if action \<noteq> SyncJobAction
                                     then recordJobEvent (jobNamespace (Job jobInfo)) (jobName (Job jobInfo))
                                            ExecuteAction (''Start to execute action '' @ action @ '' '') cc1
                                     else cc1)
                          in
                            (case st_Execute env st action of
                               Some err \<Rightarrow>
                                 if wq_NumRequeues (queueList cc2 ! unat cnt) req < maxRetries
                                 then Return (True, done (onQueue (unat cnt) (\<lambda>q. wq_AddRateLimited q req) cc2))
                                 else
                                   (let cc3 = recordJobEvent (jobNamespace (Job jobInfo)) (jobName (Job jobInfo))
                                                ExecuteAction
                                                (''Job failed on action '' @ action @ '' for retry limit reached'') cc2
                                    in Return (True, done (onQueue (unat cnt) (\<lambda>q. wq_Forget q req) cc3)))
                             | None \<Rightarrow>
                                 Return (True, done (onQueue (unat cnt) (\<lambda>q. wq_Forget q req) cc2))))))"

subsection \<open>The garbage collector (pkg/controllers/garbagecollector/garbagecollector.go)\<close>

datatype gc_error =
  UnexpectedKeyFormat string
  | ShouldNotBeCleanedUp string string
  | NoFinishTime string string
  | ApiError string
  | ApiNotFound
  | ApiConflict

datatype 'a GetResult = NotFound | GetError gc_error | Found 'a

definition DeletePropagationForeground :: string where
  "DeletePropagationForeground = ''Foreground''"

record DeleteOptions =
  PropagationPolicy :: "string option"
  Preconditions_UID :: "string option"

text \<open>
  The collector with its work queue of keys, and the cluster API it talks to: the jobs
  the API server stores, by namespace and name, and the delete calls received. The job
  lister (the informer cache) and the \<open>Get\<close> of the client are given by an environment,
  so that what they return need not agree with what the server stores when the delete
  call arrives.
\<close>

record GarbageCollector =
  gc_queue :: "string WorkQueue"
  apiJobs :: "string \<times> string \<Rightarrow> Job option"
  deleteCalls :: "(string \<times> string \<times> DeleteOptions) list"

record GCEnv =
  lister_Get :: "string \<Rightarrow> string \<Rightarrow> Job GetResult"
  client_Get :: "string \<Rightarrow> string \<Rightarrow> Job GetResult"

text \<open>
  \<open>Delete\<close> of the API server: with a UID precondition, a stored object with another UID
  is not deleted and the call fails with a conflict. The deletion of the dependents that
  foreground propagation entails is not modelled.
\<close>

definition client_Delete ::
  "GarbageCollector \<Rightarrow> string \<Rightarrow> string \<Rightarrow> DeleteOptions \<Rightarrow> gc_error option \<times> GarbageCollector" where
  "client_Delete gc namespace name options =
     (let gc1 = gc\<lparr>deleteCalls := deleteCalls gc @ [(namespace, name, options)]\<rparr>;
          deleted = gc1\<lparr>apiJobs := (apiJobs gc)((namespace, name) := None)\<rparr>
      in case apiJobs gc (namespace, name) of
           None \<Rightarrow> (Some ApiNotFound, gc1)
         | Some stored \<Rightarrow>
             (case Preconditions_UID options of
                None \<Rightarrow> (None, deleted)
              | Some uid \<Rightarrow> if uid = jobUID stored then (None, deleted) else (Some ApiConflict, gc1)))"

text \<open>\<open>strings.Split\<close> with a one-character separator, and \<open>cache.SplitMetaNamespaceKey\<close>.\<close>

fun split_on :: "char \<Rightarrow> string \<Rightarrow> string list" where
  "split_on sep [] = [[]]"
| "split_on sep (c # cs) =
     (if c = sep then [] # split_on sep cs
      else (case split_on sep cs of
              [] \<Rightarrow> [[c]]
            | part # parts \<Rightarrow> (c # part) # parts))"

definition SplitMetaNamespaceKey :: "string \<Rightarrow> gc_error + string \<times> string" where
  "SplitMetaNamespaceKey key =
     (case split_on CHR ''/'' key of
        [name] \<Rightarrow> Inr ([], name)
      | [namespace, name] \<Rightarrow> Inr (namespace, name)
      | _ \<Rightarrow> Inl (UnexpectedKeyFormat key))"

text \<open>\<open>controller.KeyFunc\<close> on a job.\<close>

definition KeyFunc :: "Job \<Rightarrow> string" where
  "KeyFunc job =
     (if jobNamespace job \<noteq> [] then jobNamespace job @ ''/'' @ jobName job else jobName job)"

definition isJobFinished :: "Job \<Rightarrow> bool" where
  "isJobFinished job =
     (jobPhase job = Completed \<or> jobPhase job = Failed \<or> jobPhase job = Terminated)"

definition needsCleanup :: "Job \<Rightarrow> bool" where
  "needsCleanup j = (TTLSecondsAfterFinished j \<noteq> None \<and> isJobFinished j)"

definition jobFinishTime :: "Job \<Rightarrow> gc_error + Time" where
  "jobFinishTime finishedJob =
     (if IsZero (LastTransitionTime finishedJob)
      then Inl (NoFinishTime (jobNamespace finishedJob) (jobName finishedJob))
      else Inr (LastTransitionTime finishedJob))"

definition getFinishAndExpireTime :: "Job \<Rightarrow> gc_error + Time \<times> Time" where
  "getFinishAndExpireTime j =
     (if \<not> needsCleanup j then Inl (ShouldNotBeCleanedUp (jobNamespace j) (jobName j))
      else
        case jobFinishTime j of
          Inl err \<Rightarrow> Inl err
        | Inr finishAt \<Rightarrow>
            (case TTLSecondsAfterFinished j of
               None \<Rightarrow> Inl (ShouldNotBeCleanedUp (jobNamespace j) (jobName j))
             | Some ttl \<Rightarrow> Inr (finishAt, finishAt + ttl * Second)))"

text \<open>
  \<open>time.Time.Sub\<close> saturates at the range of a \<open>Duration\<close>; the difference below is
  exact. The two agree in sign, which is all that \<open>processTTL\<close> tests; they can differ
  only in the delay handed to \<open>AddAfter\<close>.
\<close>

definition timeLeft :: "Job \<Rightarrow> Time \<Rightarrow> gc_error + Duration" where
  "timeLeft j since =
     (case getFinishAndExpireTime j of
        Inl err \<Rightarrow> Inl err
      | Inr (finishAt, expireAt) \<Rightarrow> Inr (expireAt - since))"

definition enqueueAfter :: "GarbageCollector \<Rightarrow> Job \<Rightarrow> Duration \<Rightarrow> GarbageCollector" where
  "enqueueAfter gb job after = gb\<lparr>gc_queue := wq_AddAfter (gc_queue gb) (KeyFunc job) after\<rparr>"

text \<open>\<open>processTTL\<close>, with the value of \<open>time.Now()\<close> as an argument.\<close>

definition processTTL ::
  "GarbageCollector \<Rightarrow> Job \<Rightarrow> Time \<Rightarrow> (bool \<times> gc_error option) \<times> GarbageCollector" where
  "processTTL gb job now =
     (if DeletionTimestamp job \<noteq> None \<or> \<not> needsCleanup job then ((False, None), gb)
      else
        case timeLeft job now of
          Inl err \<Rightarrow> ((False, Some err), gb)
        | Inr t \<Rightarrow>
            if t \<le> 0 then ((True, None), gb)
            else ((False, None), enqueueAfter gb job t))"

text \<open>
  \<open>processJob\<close>; \<open>now1\<close> and \<open>now2\<close> are the times at which the two calls of
  \<open>processTTL\<close> read the clock.
\<close>

definition processJob ::
  "GCEnv \<Rightarrow> GarbageCollector \<Rightarrow> string \<Rightarrow> Time \<Rightarrow> Time \<Rightarrow> gc_error option \<times> GarbageCollector" where
  "processJob env gb key now1 now2 =
     (case SplitMetaNamespaceKey key of
        Inl err \<Rightarrow> (Some err, gb)
      | Inr (namespace, name) \<Rightarrow>
          (case lister_Get env namespace name of
             NotFound \<Rightarrow> (None, gb)
           | GetError err \<Rightarrow> (Some err, gb)
           | Found job \<Rightarrow>
               (case processTTL gb job now1 of
                  ((expired, Some err), gb1) \<Rightarrow> (Some err, gb1)
                | ((expired, None), gb1) \<Rightarrow>
                    if \<not> expired then (None, gb1)
                    else
                      (case client_Get env namespace name of
                         NotFound \<Rightarrow> (None, gb1)
                       | GetError err \<Rightarrow> (Some err, gb1)
                       | Found fresh \<Rightarrow>
                           (case processTTL gb1 fresh now2 of
                              ((expired, Some err), gb2) \<Rightarrow> (Some err, gb2)
                            | ((expired, None), gb2) \<Rightarrow>
                                if \<not> expired then (None, gb2)
                                else client_Delete gb2 (jobNamespace fresh) (jobName fresh)
                                       \<lparr>PropagationPolicy = Some DeletePropagationForeground,
                                        Preconditions_UID = Some (jobUID fresh)\<rparr>)))))"

text \<open>
  The expiry check in the words of the claim: no deletion timestamp, a TTL, a finished
  phase, and finish time plus TTL not after \<open>now\<close>.
\<close>

definition ttl_expired :: "Job \<Rightarrow> Time \<Rightarrow> bool" where
  "ttl_expired job now =
     (DeletionTimestamp job = None \<and>
      (case TTLSecondsAfterFinished job of
         None \<Rightarrow> False
       | Some ttl \<Rightarrow> LastTransitionTime job + ttl * Second \<le> now) \<and>
      (jobPhase job = Completed \<or> jobPhase job = Failed \<or> jobPhase job = Terminated))"

section \<open>The queue admission webhooks\<close>

text \<open>
  \<open>scheduling/v1beta1.Queue\<close> with the fields the webhooks read; an absent state is the
  empty string and an absent \<open>spec.reclaimable\<close> is nil.
\<close>

record Queue =
  queueName :: string
  specWeight :: int
  specState :: QueueState
  specReclaimable :: "bool option"
  statusState :: QueueState

record Status =
  Message :: string

datatype PatchValue = StringValue string | BoolValue bool

record patchOperation =
  Op :: string
  Path :: string
  Value :: PatchValue

text \<open>
  The admission request with its object decoded, and the response; the JSON patch is
  kept as the list of its operations rather than as marshalled bytes.
\<close>

record AdmissionRequest =
  reqName :: string
  Operation :: string
  Object :: Queue

record AdmissionReview =
  arRequest :: AdmissionRequest

record AdmissionResponse =
  Allowed :: bool
  Result :: "Status option"
  Patch :: "patchOperation list option"
  PatchType :: "string option"

text \<open>\<open>util.ToAdmissionResponse\<close> (pkg/webhooks/util), applied to the message of the error.\<close>

definition ToAdmissionResponse :: "string \<Rightarrow> AdmissionResponse" where
  "ToAdmissionResponse err =
     \<lparr>Allowed = False, Result = Some \<lparr>Message = err\<rparr>, Patch = None, PatchType = None\<rparr>"

subsection \<open>Mutating webhook (pkg/webhooks/admission/queues/mutate, only its test is among the sources)\<close>

text \<open>
  Modelled from the spec: \<open>createQueuePatch\<close> and \<open>MutateQueues\<close> are not among the
  sources. The spec: mutate \<open>Queue\<close> on CREATE only; if \<open>spec.state\<close> is absent,
  patch-add \<open>/spec/state = "Open"\<close>; if \<open>spec.reclaimable\<close> is absent, patch-add
  \<open>/spec/reclaimable = true\<close>; return the JSON patch; any other operation is rejected
  with the message \<open>invalid operation `X`, expect operation to be `CREATE`\<close>.
\<close>

definition createQueuePatch :: "Queue \<Rightarrow> patchOperation list" where
  "createQueuePatch queue =
     (if specState queue = []
      then [\<lparr>Op = ''add'', Path = ''/spec/state'', Value = StringValue QueueStateOpen\<rparr>]
      else []) @
     (if specReclaimable queue = None
      then [\<lparr>Op = ''add'', Path = ''/spec/reclaimable'', Value = BoolValue True\<rparr>]
      else [])"

definition MutateQueues :: "AdmissionReview \<Rightarrow> AdmissionResponse" where
  "MutateQueues ar =
     (if Operation (arRequest ar) = ''CREATE''
      then \<lparr>Allowed = True, Result = None,
            Patch = Some (createQueuePatch (Object (arRequest ar))),
            PatchType = Some ''JSONPatch''\<rparr>
      else ToAdmissionResponse
             (''invalid operation `'' @ Operation (arRequest ar) @
              ''`, expect operation to be `CREATE`''))"

subsection \<open>Validating webhook (pkg/webhooks/admission/queues/validate, only its test is among the sources)\<close>

text \<open>
  Modelled from the spec: \<open>AdmitQueues\<close> and its helpers are not among the sources. The
  spec: on CREATE and UPDATE the state is \<open>Open\<close>, \<open>Closed\<close> or absent; on DELETE the
  request is rejected if the queue name is \<open>default\<close> or the current state of the queue
  is not \<open>Closed\<close>, with the message \<open>only queue with state `Closed` can be deleted,
  queue `NAME` state is `STATE`\<close>; any other operation is rejected. The current state is
  that of the queue the client of the webhook finds under the name of the request; the
  messages for the \<open>default\<close> queue, a wrong state and an invalid operation are those the
  test expects.
\<close>

record WebhookConfig =
  clientQueues :: "string \<Rightarrow> Queue option"

definition validateQueue :: "Queue \<Rightarrow> string option" where
  "validateQueue queue =
     (if statusState queue = [] \<or> statusState queue = QueueStateOpen \<or>
         statusState queue = QueueStateClosed
      then None
      else Some (''requestBody.spec.state: Invalid value: '' @ [CHR 0x22] @ statusState queue @
                 [CHR 0x22] @ '': queue state must be in [Open Closed]''))"

definition validateQueueDeleting :: "WebhookConfig \<Rightarrow> string \<Rightarrow> string option" where
  "validateQueueDeleting config queue =
     (if queue = ''default'' then Some ''`default` queue can not be deleted''
      else
        case clientQueues config queue of
          None \<Rightarrow> Some (''queues.scheduling.volcano.sh '' @ [CHR 0x22] @ queue @ [CHR 0x22] @ '' not found'')
        | Some q \<Rightarrow>
            if statusState q \<noteq> QueueStateClosed
            then Some (''only queue with state `'' @ QueueStateClosed @
                       ''` can be deleted, queue `'' @ queueName q @
                       ''` state is `'' @ statusState q @ ''`'')
            else None)"

definition reviewResponse :: "string option \<Rightarrow> AdmissionResponse" where
  "reviewResponse err =
     (case err of
        None \<Rightarrow> \<lparr>Allowed = True, Result = None, Patch = None, PatchType = None\<rparr>
      | Some msg \<Rightarrow> \<lparr>Allowed = False, Result = Some \<lparr>Message = msg\<rparr>, Patch = None, PatchType = None\<rparr>)"

definition AdmitQueues :: "WebhookConfig \<Rightarrow> AdmissionReview \<Rightarrow> AdmissionResponse" where
  "AdmitQueues config ar =
     (let op = Operation (arRequest ar) in
      if op = ''CREATE'' \<or> op = ''UPDATE'' then reviewResponse (validateQueue (Object (arRequest ar)))
      else if op = ''DELETE'' then reviewResponse (validateQueueDeleting config (reqName (arRequest ar)))
      else ToAdmissionResponse
             (''invalid operation `'' @ op @
              ''`, expect operation to be `CREATE`, `UPDATE` or `DELETE`''))"

section \<open>Example inputs\<close>

subsection \<open>Example admission requests\<close>

text \<open>The queues and requests of the tests of the two webhooks.\<close>

definition testQueue :: "string \<Rightarrow> bool option \<Rightarrow> QueueState \<Rightarrow> Queue" where
  "testQueue name reclaimable state =
     \<lparr>queueName = name, specWeight = 1, specState = [], specReclaimable = reclaimable,
      statusState = state\<rparr>"

definition testReview :: "string \<Rightarrow> string \<Rightarrow> Queue \<Rightarrow> AdmissionReview" where
  "testReview name op queue = \<lparr>arRequest = \<lparr>reqName = name, Operation = op, Object = queue\<rparr>\<rparr>"

definition testConfig :: WebhookConfig where
  "testConfig =
     \<lparr>clientQueues = (\<lambda>name.
        if name = ''open-state-for-delete''
        then Some (testQueue ''open-state-for-delete'' None QueueStateOpen)
        else if name = ''closed-state-for-delete''
        then Some (testQueue ''closed-state-for-delete'' None QueueStateClosed)
        else None)\<rparr>"

subsection \<open>Example sessions\<close>

text \<open>
  One node with 1 CPU, one \<open>Closed\<close> queue \<open>c1\<close> and one \<open>Pending\<close> job in it that
  has no \<open>MinResources\<close>.
\<close>

definition closedQueueSession :: Session where
  "closedQueueSession =
     \<lparr>Jobs = [\<lparr>jUID = ''c1/pg1'', jNamespace = ''c1'', jName = ''pg1'', jQueue = ''c1'',
               MinResources = None, Phase = PodGroupPending\<rparr>],
      Queues = [(''c1'', \<lparr>qUID = ''c1'', qName = ''c1'', qWeight = 1, qState = QueueStateClosed\<rparr>)],
      Nodes = [\<lparr>nName = ''n1'', Allocatable = [(''cpu'', 1000)], Used = []\<rparr>],
      Configurations = [],
      QueueOrderFn = (\<lambda>l r. False),
      JobOrderFn = (\<lambda>l r. False),
      JobEnqueueable = (\<lambda>job. True)\<rparr>"


text \<open>
  Scenario S5 of the specification: a cluster of 10 CPU, the default factor 1.2, and
  three \<open>Pending\<close> jobs of one \<open>Open\<close> queue, each with \<open>MinResources\<close> of 5 CPU.
\<close>

definition overCommitJob :: "string \<Rightarrow> JobInfo" where
  "overCommitJob name =
     \<lparr>jUID = ''c1/'' @ name, jNamespace = ''c1'', jName = name, jQueue = ''c1'',
      MinResources = Some [(''cpu'', 5000)], Phase = PodGroupPending\<rparr>"

definition overCommitQueue :: QueueInfo where
  "overCommitQueue = \<lparr>qUID = ''c1'', qName = ''c1'', qWeight = 1, qState = QueueStateOpen\<rparr>"

definition overCommitSession :: Session where
  "overCommitSession =
     \<lparr>Jobs = [overCommitJob ''pg1'', overCommitJob ''pg2'', overCommitJob ''pg3''],
      Queues = [(''c1'', overCommitQueue)],
      Nodes = [\<lparr>nName = ''n1'', Allocatable = [(''cpu'', 10000)], Used = []\<rparr>],
      Configurations = [],
      QueueOrderFn = (\<lambda>l r. False),
      JobOrderFn = (\<lambda>l r. False),
      JobEnqueueable = (\<lambda>job. True)\<rparr>"


text \<open>
  The session \<open>closedQueueSession\<close> with a second \<open>Pending\<close> job whose queue \<open>c2\<close> is
  not among the queues of the session.
\<close>

definition missingQueueSession :: Session where
  "missingQueueSession =
     closedQueueSession\<lparr>Jobs :=
       Jobs closedQueueSession @
       [\<lparr>jUID = ''c2/pg2'', jNamespace = ''c2'', jName = ''pg2'', jQueue = ''c2'',
         MinResources = None, Phase = PodGroupPending\<rparr>]\<rparr>"

subsection \<open>Example controller\<close>

text \<open>
  A controller with one worker whose queue holds one request that has been requeued
  \<open>n\<close> times, and an environment in which executing the action always fails.
\<close>

definition retryRequest :: Request where
  "retryRequest =
     \<lparr>rNamespace = ''test'', rJobName = ''job1'', rTaskName = [], rEvent = ''OutOfSync'',
      rExitCode = 0, rAction = [], rJobVersion = 0\<rparr>"

definition retryJob :: Job where
  "retryJob =
     \<lparr>jobNamespace = ''test'', jobName = ''job1'', jobUID = ''uid-1'', DeletionTimestamp = None,
      TTLSecondsAfterFinished = None, jobPhase = Running, LastTransitionTime = 1\<rparr>"

definition failingEnv :: "unit JobEnv" where
  "failingEnv =
     \<lparr>JobKeyByReq = (\<lambda>req. rNamespace req @ ''/'' @ rJobName req),
      cache_Get = (\<lambda>key. Inr \<lparr>Job = retryJob\<rparr>),
      NewState = (\<lambda>jobInfo. Some ()),
      applyPolicies = (\<lambda>job req. SyncJobAction),
      st_Execute = (\<lambda>st action. Some ''failed to sync job'')\<rparr>"

definition retryQueue :: "nat \<Rightarrow> Request WorkQueue" where
  "retryQueue n =
     \<lparr>wq_queue = [retryRequest], wq_dirty = {retryRequest}, wq_processing = {},
      wq_shuttingDown = False, wq_waiting = [],
      wq_failures = (\<lambda>req. if req = retryRequest then n else 0)\<rparr>"

definition retryController :: "nat \<Rightarrow> Controller" where
  "retryController n = \<lparr>queueList = [retryQueue n], workers = 1, recorded = []\<rparr>"

subsection \<open>Example garbage collection\<close>

text \<open>
  A job that completed at second 100 with a TTL of 10 seconds, known to the lister and
  the client under \<open>test/job1\<close>, and a cluster that stores a job of that name with the
  UID \<open>uid\<close>.
\<close>

definition expiredJob :: Job where
  "expiredJob =
     \<lparr>jobNamespace = ''test'', jobName = ''job1'', jobUID = ''uid-1'', DeletionTimestamp = None,
      TTLSecondsAfterFinished = Some 10, jobPhase = Completed, LastTransitionTime = 100 * Second\<rparr>"

definition gcEnv :: GCEnv where
  "gcEnv =
     \<lparr>lister_Get = (\<lambda>namespace name.
         if namespace = ''test'' \<and> name = ''job1'' then Found expiredJob else NotFound),
      client_Get = (\<lambda>namespace name.
         if namespace = ''test'' \<and> name = ''job1'' then Found expiredJob else NotFound)\<rparr>"

definition gcCluster :: "string \<Rightarrow> GarbageCollector" where
  "gcCluster uid =
     \<lparr>gc_queue = \<lparr>wq_queue = [], wq_dirty = {}, wq_processing = {''test/job1''},
                  wq_shuttingDown = False, wq_waiting = [], wq_failures = (\<lambda>key. 0)\<rparr>,
      apiJobs = (\<lambda>k. if k = (''test'', ''job1'') then Some (expiredJob\<lparr>jobUID := uid\<rparr>) else None),
      deleteCalls = []\<rparr>"

section \<open>Verification\<close>

subsection \<open>Resources and priority queues\<close>

lemma length_Push [simp]: "length (Push lessFn x xs) = Suc (length xs)"
  by (induction xs) auto

lemma mset_Push [simp]: "mset (Push lessFn x xs) = add_mset x (mset xs)"
  by (induction xs) auto

lemma map_of_keys_map:
  "map_of (map (\<lambda>n. (n, f n)) ks) n = (if n \<in> set ks then Some (f n) else None)"
  by (induction ks) auto

lemma quantity_absent: "n \<notin> fst ` set r \<Longrightarrow> quantity r n = 0"
proof -
  assume "n \<notin> fst ` set r"
  then have "map_of r n = None" by (simp add: map_of_eq_None_iff)
  then show ?thesis by (simp add: quantity_def)
qed

lemma quantity_Add [simp]: "quantity (Add r rr) n = quantity r n + quantity rr n"
  by (auto simp: Add_def dimensions_def quantity_absent map_of_keys_map
        quantity_def[of "map f xs" for f xs])

lemma quantity_Sub [simp]: "quantity (Sub r rr) n = quantity r n - quantity rr n"
  by (auto simp: Sub_def dimensions_def quantity_absent map_of_keys_map
        quantity_def[of "map f xs" for f xs])

lemma quantity_Multi [simp]: "quantity (Multi r ratio) n = quantity r n * ratio"
proof -
  have "map_of (map (\<lambda>(n, v). (n, v * ratio)) r) n = map_option (\<lambda>v. v * ratio) (map_of r n)"
    by (induction r) auto
  then show ?thesis
    by (simp add: Multi_def quantity_def split: option.splits)
qed

lemma quantity_EmptyResource [simp]: "quantity EmptyResource n = 0"
  by (simp add: EmptyResource_def quantity_def)




subsection \<open>The main loop of the enqueue action\<close>

lemma mset_concat_update:
  "mset (concat (map snd (AList.update k v al))) + mset (case map_of al k of None \<Rightarrow> [] | Some old \<Rightarrow> old)
     = mset (concat (map snd al)) + mset v"
  by (induction al) auto

lemma heap_entries_pop:
  assumes "map_of (jobsMap st) k = Some (i # rest)"
  shows "mset (heap_entries st) = add_mset i (mset (concat (map snd (AList.update k rest (jobsMap st)))))"
  using mset_concat_update[of k rest "jobsMap st"] assms
  by (simp add: heap_entries_def)

text \<open>What an iteration does, case by case.\<close>

lemma enqueue_iter_break:
  "enqueue_iter ssn st = None \<longleftrightarrow> queues st = [] \<or> IsEmpty (idle st)"
  by (auto simp: enqueue_iter_def Let_def split: list.splits option.splits prod.splits)

lemma enqueue_iter_drop:
  assumes "queues st = queue # qs" "\<not> IsEmpty (idle st)"
    and "map_of (jobsMap st) (qUID queue) = None \<or> map_of (jobsMap st) (qUID queue) = Some []"
  shows "enqueue_iter ssn st = Some (st\<lparr>queues := qs\<rparr>)"
  using assms by (auto simp: enqueue_iter_def)

lemma enqueue_iter_pop:
  assumes "queues st = queue # qs" "\<not> IsEmpty (idle st)"
    and "map_of (jobsMap st) (qUID queue) = Some (i # rest)"
  shows "enqueue_iter ssn st =
         Some (st\<lparr>queues := Push (QueueOrderFn ssn) queue qs,
                  jobsMap := AList.update (qUID queue) rest (jobsMap st),
                  idle := (if admission_test ssn (jobs st ! i) (idle st)
                           then (case MinResources (jobs st ! i) of
                                   None \<Rightarrow> idle st | Some minReq \<Rightarrow> Sub (idle st) minReq)
                           else idle st),
                  jobs := (if admission_test ssn (jobs st ! i) (idle st)
                           then (jobs st)[i := (jobs st ! i)\<lparr>Phase := PodGroupInqueue\<rparr>]
                           else jobs st)\<rparr>)"
  using assms
  by (auto simp: enqueue_iter_def admission_test_def Let_def split: option.splits)

lemma enqueue_iter_cases:
  assumes "enqueue_iter ssn st = Some st'"
  obtains (drop) queue qs where "queues st = queue # qs" "\<not> IsEmpty (idle st)"
      "map_of (jobsMap st) (qUID queue) = None \<or> map_of (jobsMap st) (qUID queue) = Some []"
      "st' = st\<lparr>queues := qs\<rparr>"
  | (pop) queue qs i rest where "queues st = queue # qs" "\<not> IsEmpty (idle st)"
      "map_of (jobsMap st) (qUID queue) = Some (i # rest)"
proof (cases "queues st")
  case Nil
  with assms show ?thesis by (simp add: enqueue_iter_def)
next
  case (Cons queue qs)
  with assms have ne: "\<not> IsEmpty (idle st)" by (auto simp: enqueue_iter_def split: if_splits)
  show ?thesis
  proof (cases "map_of (jobsMap st) (qUID queue)")
    case None
    with Cons ne assms enqueue_iter_drop[of st queue qs ssn] show ?thesis by (auto intro: drop)
  next
    case (Some h)
    show ?thesis
    proof (cases h)
      case Nil
      with Some Cons ne assms enqueue_iter_drop[of st queue qs ssn] show ?thesis by (auto intro: drop)
    next
      case (Cons i rest)
      with Some \<open>queues st = queue # qs\<close> ne show ?thesis by (auto intro: pop)
    qed
  qed
qed

lemma enqueue_iter_measure:
  assumes "enqueue_iter ssn st = Some st'"
  shows "enqueue_measure st' < enqueue_measure st"
  using assms
proof (cases rule: enqueue_iter_cases)
  case (drop queue qs)
  then show ?thesis by (simp add: enqueue_measure_def heap_entries_def)
next
  case (pop queue qs i rest)
  from heap_entries_pop[OF pop(3)]
  have "length (heap_entries st) = Suc (length (concat (map snd (AList.update (qUID queue) rest (jobsMap st)))))"
    by (metis size_mset size_add_mset)
  with assms enqueue_iter_pop[OF pop, of ssn] pop(1) show ?thesis
    by (auto simp add: enqueue_measure_def heap_entries_def)
qed

lemma enqueue_loop_returns: "\<exists>st'. enqueue_loop ssn st = Some st'"
proof (induction "enqueue_measure st" arbitrary: st rule: less_induct)
  case less
  show ?case
  proof (cases "enqueue_iter ssn st")
    case None
    then show ?thesis by (subst enqueue_loop.simps) simp
  next
    case (Some st1)
    from less[OF enqueue_iter_measure[OF Some]] show ?thesis
      by (subst enqueue_loop.simps) (simp add: Some)
  qed
qed

subsection \<open>The first loop\<close>

lemma heap_push:
  "mset (concat (map snd (AList.update k (Push f i (case map_of al k of None \<Rightarrow> [] | Some pq \<Rightarrow> pq)) al)))
     = add_mset i (mset (concat (map snd al)))"
  using mset_concat_update[of k "Push f i (case map_of al k of None \<Rightarrow> [] | Some pq \<Rightarrow> pq)" al]
  by simp

lemma collect_job_jobs [simp]: "jobs (collect_job ssn st i) = jobs st"
  by (simp add: collect_job_def Let_def split: option.splits)

lemma collect_job_heap:
  "mset (heap_entries (collect_job ssn st i)) =
     (if map_of (Queues ssn) (jQueue (Jobs ssn ! i)) \<noteq> None \<and> Phase (Jobs ssn ! i) = PodGroupPending
      then add_mset i (mset (heap_entries st)) else mset (heap_entries st))"
proof (cases "map_of (Queues ssn) (jQueue (Jobs ssn ! i))")
  case None
  then show ?thesis by (simp add: collect_job_def)
next
  case (Some queue)
  show ?thesis
  proof (cases "Phase (Jobs ssn ! i) = PodGroupPending")
    case True
    with Some show ?thesis
      by (simp add: collect_job_def Let_def heap_entries_def heap_push)
  next
    case False
    with Some show ?thesis
      by (simp add: collect_job_def Let_def heap_entries_def)
  qed
qed

lemma foldl_collect_jobs [simp]: "jobs (foldl (collect_job ssn) st is) = jobs st"
  by (induction "is" arbitrary: st) auto

lemma foldl_collect_heap:
  "mset (heap_entries (foldl (collect_job ssn) st [0..<n])) =
     mset (heap_entries st) +
     mset (filter (\<lambda>i. map_of (Queues ssn) (jQueue (Jobs ssn ! i)) \<noteq> None \<and>
                        Phase (Jobs ssn ! i) = PodGroupPending) [0..<n])"
  by (induction n) (auto simp: collect_job_heap)

lemma heap_entries_idle [simp]: "heap_entries (st\<lparr>idle := r\<rparr>) = heap_entries st"
  by (simp add: heap_entries_def)

lemma enqueue_init_heap:
  "mset (heap_entries (enqueue_init ssn)) =
     mset (filter (\<lambda>i. map_of (Queues ssn) (jQueue (Jobs ssn ! i)) \<noteq> None \<and>
                        Phase (Jobs ssn ! i) = PodGroupPending) [0..<length (Jobs ssn)])"
proof -
  let ?st0 = "\<lparr>queues = [], queueMap = [], jobsMap = [], idle = EmptyResource, jobs = Jobs ssn\<rparr>"
  have "heap_entries (enqueue_init ssn) = heap_entries (foldl (collect_job ssn) ?st0 [0..<length (Jobs ssn)])"
    by (simp add: enqueue_init_def)
  moreover have "heap_entries ?st0 = []" by (simp add: heap_entries_def)
  ultimately show ?thesis by (simp only: foldl_collect_heap) simp
qed

lemma enqueue_init_jobs [simp]: "jobs (enqueue_init ssn) = Jobs ssn"
  by (simp add: enqueue_init_def)

lemma enqueue_init_idle [simp]: "idle (enqueue_init ssn) = initial_idle ssn"
  by (simp add: enqueue_init_def)

lemma enqueue_init_entries: "set (heap_entries (enqueue_init ssn)) = {i. collected ssn i}"
proof -
  have "set_mset (mset (heap_entries (enqueue_init ssn))) = {i. collected ssn i}"
    unfolding enqueue_init_heap by (auto simp: collected_def)
  then show ?thesis by simp
qed

lemma enqueue_init_distinct: "distinct (heap_entries (enqueue_init ssn))"
  using mset_eq_imp_distinct_iff[OF enqueue_init_heap[of ssn]] by simp

lemma enqueue_inv_init: "enqueue_inv ssn (enqueue_init ssn)"
  by (simp add: enqueue_inv_def enqueue_init_distinct enqueue_init_entries)

subsection \<open>Preservation\<close>

lemma heap_entries_pop_set:
  assumes "map_of (jobsMap st) k = Some (i # rest)" "distinct (heap_entries st)"
  shows "i \<in> set (heap_entries st)"
    and "distinct (concat (map snd (AList.update k rest (jobsMap st))))"
    and "set (concat (map snd (AList.update k rest (jobsMap st)))) = set (heap_entries st) - {i}"
proof -
  let ?h' = "concat (map snd (AList.update k rest (jobsMap st)))"
  have eq: "mset (heap_entries st) = mset (i # ?h')"
    using heap_entries_pop[OF assms(1)] by simp
  from mset_eq_setD[OF eq] show "i \<in> set (heap_entries st)" by simp
  from mset_eq_imp_distinct_iff[OF eq] assms(2) have d: "distinct (i # ?h')" by simp
  then show "distinct ?h'" by simp
  from eq have "set (heap_entries st) = set (i # ?h')" by (rule mset_eq_setD)
  with d show "set ?h' = set (heap_entries st) - {i}" by auto
qed

lemma enqueue_inv_step:
  assumes "enqueue_iter ssn st = Some st'" "enqueue_inv ssn st"
  shows "enqueue_inv ssn st'"
  using assms(1)
proof (cases rule: enqueue_iter_cases)
  case (drop queue qs)
  with assms(2) show ?thesis by (simp add: enqueue_inv_def heap_entries_def)
next
  case (pop queue qs i rest)
  from assms(2) have d: "distinct (heap_entries st)" by (simp add: enqueue_inv_def)
  note h = heap_entries_pop_set[OF pop(3) d]
  from assms(2) h(1) have i: "i < length (jobs st)" "jobs st ! i = Jobs ssn ! i" "collected ssn i"
    by (auto simp: enqueue_inv_def collected_def)
  from assms(1) enqueue_iter_pop[OF pop, of ssn]
  have st': "st' = st\<lparr>queues := Push (QueueOrderFn ssn) queue qs,
                  jobsMap := AList.update (qUID queue) rest (jobsMap st),
                  idle := (if admission_test ssn (jobs st ! i) (idle st)
                           then (case MinResources (jobs st ! i) of
                                   None \<Rightarrow> idle st | Some minReq \<Rightarrow> Sub (idle st) minReq)
                           else idle st),
                  jobs := (if admission_test ssn (jobs st ! i) (idle st)
                           then (jobs st)[i := (jobs st ! i)\<lparr>Phase := PodGroupInqueue\<rparr>]
                           else jobs st)\<rparr>" by simp
  have he: "heap_entries st' = concat (map snd (AList.update (qUID queue) rest (jobsMap st)))"
    by (simp add: st' heap_entries_def)
  have 1: "length (jobs st') = length (Jobs ssn)"
    using assms(2) by (simp add: st' enqueue_inv_def)
  have 2: "distinct (heap_entries st')" using h(2) he by simp
  have 3: "\<forall>k \<in> set (heap_entries st'). collected ssn k \<and> jobs st' ! k = Jobs ssn ! k"
  proof
    fix k assume "k \<in> set (heap_entries st')"
    with h(3) he have k: "k \<in> set (heap_entries st)" "k \<noteq> i" by auto
    with assms(2) have "collected ssn k \<and> jobs st ! k = Jobs ssn ! k" by (simp add: enqueue_inv_def)
    with k(2) show "collected ssn k \<and> jobs st' ! k = Jobs ssn ! k" by (simp add: st')
  qed
  have 4: "\<forall>k < length (Jobs ssn).
         jobs st' ! k = Jobs ssn ! k \<or>
         (collected ssn k \<and> k \<notin> set (heap_entries st') \<and>
          jobs st' ! k = (Jobs ssn ! k)\<lparr>Phase := PodGroupInqueue\<rparr>)"
  proof (intro allI impI)
    fix k assume kl: "k < length (Jobs ssn)"
    show "jobs st' ! k = Jobs ssn ! k \<or>
         (collected ssn k \<and> k \<notin> set (heap_entries st') \<and>
          jobs st' ! k = (Jobs ssn ! k)\<lparr>Phase := PodGroupInqueue\<rparr>)"
    proof (cases "k = i")
      case True
      with i h(3) he show ?thesis by (auto simp: st')
    next
      case False
      from assms(2) kl have "jobs st ! k = Jobs ssn ! k \<or>
         (collected ssn k \<and> k \<notin> set (heap_entries st) \<and>
          jobs st ! k = (Jobs ssn ! k)\<lparr>Phase := PodGroupInqueue\<rparr>)" by (simp add: enqueue_inv_def)
      with False h(3) he show ?thesis by (auto simp: st')
    qed
  qed
  from 1 2 3 4 show ?thesis unfolding enqueue_inv_def by blast
qed

lemma enqueue_inv_reachable: "enqueue_reachable ssn st \<Longrightarrow> enqueue_inv ssn st"
  unfolding enqueue_reachable_def
  by (induction rule: rtranclp_induct) (auto simp: enqueue_inv_init enqueue_step_def intro: enqueue_inv_step)

subsection \<open>What later iterations leave alone\<close>

lemma heap_entries_pop_insert:
  assumes "map_of (jobsMap st) k = Some (i # rest)"
  shows "set (heap_entries st) = insert i (set (concat (map snd (AList.update k rest (jobsMap st)))))"
proof -
  have "set_mset (mset (heap_entries st)) =
        set_mset (add_mset i (mset (concat (map snd (AList.update k rest (jobsMap st))))))"
    by (simp only: heap_entries_pop[OF assms])
  then show ?thesis by simp
qed

lemma enqueue_iter_heap_subset:
  assumes "enqueue_iter ssn st = Some st'"
  shows "set (heap_entries st') \<subseteq> set (heap_entries st)"
  using assms
proof (cases rule: enqueue_iter_cases)
  case (drop queue qs)
  then show ?thesis by (simp add: heap_entries_def)
next
  case (pop queue qs i rest)
  from assms enqueue_iter_pop[OF pop, of ssn]
  have "heap_entries st' = concat (map snd (AList.update (qUID queue) rest (jobsMap st)))"
    by (auto simp: heap_entries_def)
  with heap_entries_pop_insert[OF pop(3)] show ?thesis by auto
qed

lemma enqueue_iter_jobs_outside:
  assumes "enqueue_iter ssn st = Some st'" "k \<notin> set (heap_entries st)"
  shows "jobs st' ! k = jobs st ! k"
  using assms(1)
proof (cases rule: enqueue_iter_cases)
  case (drop queue qs)
  then show ?thesis by simp
next
  case (pop queue qs i rest)
  from heap_entries_pop_insert[OF pop(3)] assms(2) have "k \<noteq> i" by auto
  with assms(1) enqueue_iter_pop[OF pop, of ssn] show ?thesis by auto
qed

lemma enqueue_steps_outside:
  assumes "(enqueue_step ssn)\<^sup>*\<^sup>* st st'" "k \<notin> set (heap_entries st)"
  shows "k \<notin> set (heap_entries st') \<and> jobs st' ! k = jobs st ! k"
  using assms
proof (induction rule: rtranclp_induct)
  case base
  then show ?case by simp
next
  case (step y z)
  then have "enqueue_iter ssn y = Some z" by (simp add: enqueue_step_def)
  from enqueue_iter_heap_subset[OF this] enqueue_iter_jobs_outside[OF this] step
  show ?case by auto
qed

lemma enqueue_loop_step:
  "enqueue_iter ssn st = Some st' \<Longrightarrow> enqueue_loop ssn st = enqueue_loop ssn st'"
  by (subst enqueue_loop.simps) simp

lemma enqueue_loop_steps:
  "(enqueue_step ssn)\<^sup>*\<^sup>* st st' \<Longrightarrow> enqueue_loop ssn st = enqueue_loop ssn st'"
  by (induction rule: rtranclp_induct) (auto simp: enqueue_step_def dest: enqueue_loop_step)

lemma enqueue_loop_reaches:
  "enqueue_loop ssn st = Some fin \<Longrightarrow> (enqueue_step ssn)\<^sup>*\<^sup>* st fin"
proof (induction "enqueue_measure st" arbitrary: st rule: less_induct)
  case less
  show ?case
  proof (cases "enqueue_iter ssn st")
    case None
    with less.prems have "fin = st" by (subst (asm) enqueue_loop.simps) simp
    then show ?thesis by simp
  next
    case (Some st1)
    with less.prems have "enqueue_loop ssn st1 = Some fin"
      by (subst (asm) enqueue_loop.simps) simp
    from less.hyps[OF enqueue_iter_measure[OF Some] this] Some show ?thesis
      by (simp add: enqueue_step_def converse_rtranclp_into_rtranclp)
  qed
qed

lemma Execute_final:
  assumes "Execute ssn = Some ssn'"
  obtains fin where "enqueue_loop ssn (enqueue_init ssn) = Some fin" "enqueue_reachable ssn fin"
    "ssn' = ssn\<lparr>Jobs := jobs fin\<rparr>"
proof -
  from assms obtain fin where f: "enqueue_loop ssn (enqueue_init ssn) = Some fin"
    "ssn' = ssn\<lparr>Jobs := jobs fin\<rparr>" by (auto simp: Execute_def)
  from enqueue_loop_reaches[OF f(1)] have "enqueue_reachable ssn fin"
    by (simp add: enqueue_reachable_def)
  with f that show ?thesis by blast
qed

lemma Execute_after_reachable:
  assumes "Execute ssn = Some ssn'" "enqueue_reachable ssn st"
  obtains fin where "(enqueue_step ssn)\<^sup>*\<^sup>* st fin" "Jobs ssn' = jobs fin"
proof -
  from assms(1) obtain fin where f: "enqueue_loop ssn (enqueue_init ssn) = Some fin"
    "ssn' = ssn\<lparr>Jobs := jobs fin\<rparr>" by (auto simp: Execute_def)
  from assms(2) enqueue_loop_steps[of ssn "enqueue_init ssn" st] f(1)
  have "enqueue_loop ssn st = Some fin" by (simp add: enqueue_reachable_def)
  from enqueue_loop_reaches[OF this] f(2) that show ?thesis by simp
qed

text \<open>
  C3: whenever \<open>Execute\<close> pops a job \<open>i\<close> from the job queue of the queue it has
  just popped (\<open>st\<close> is a state the run passes through at the start of an iteration, the
  queue of queues is not empty, \<open>idle\<close> is not empty and the job queue of the popped queue
  has \<open>i\<close> on top), that job is \<open>Pending\<close>, and it is set to \<open>Inqueue\<close> exactly when
  it passes the admission test: it has no \<open>MinResources\<close>, or \<open>JobEnqueueable\<close> holds and
  its \<open>MinResources\<close> are \<open>LessEqual\<close> to the remaining idle resource. When it is admitted
  with \<open>MinResources\<close> these are subtracted from \<open>idle\<close>; when it fails the test it stays
  \<open>Pending\<close> and \<open>idle\<close> is unchanged. The queue is pushed back, the job is in no job queue
  in any later state of the pass, and its phase is the one \<open>Execute\<close> returns.
\<close>

theorem enqueue_admission_condition:
  assumes reach: "enqueue_reachable ssn st"
    and pop: "queues st = queue # qs" "\<not> IsEmpty (idle st)"
      "map_of (jobsMap st) (qUID queue) = Some (i # rest)"
  shows "\<exists>st'. enqueue_iter ssn st = Some st' \<and>
      Phase (jobs st ! i) = PodGroupPending \<and>
      (Phase (jobs st' ! i) = PodGroupInqueue \<longleftrightarrow> admission_test ssn (jobs st ! i) (idle st)) \<and>
      (admission_test ssn (jobs st ! i) (idle st) \<longrightarrow>
         idle st' = (case MinResources (jobs st ! i) of
                       None \<Rightarrow> idle st | Some minReq \<Rightarrow> Sub (idle st) minReq)) \<and>
      (\<not> admission_test ssn (jobs st ! i) (idle st) \<longrightarrow>
         Phase (jobs st' ! i) = PodGroupPending \<and> idle st' = idle st) \<and>
      queues st' = Push (QueueOrderFn ssn) queue qs \<and>
      (\<forall>st''. (enqueue_step ssn)\<^sup>*\<^sup>* st' st'' \<longrightarrow>
         i \<notin> set (heap_entries st'') \<and> Phase (jobs st'' ! i) = Phase (jobs st' ! i)) \<and>
      (\<forall>ssn'. Execute ssn = Some ssn' \<longrightarrow> Phase (Jobs ssn' ! i) = Phase (jobs st' ! i))"
proof -
  let ?admit = "admission_test ssn (jobs st ! i) (idle st)"
  define st' where "st' = st\<lparr>queues := Push (QueueOrderFn ssn) queue qs,
                  jobsMap := AList.update (qUID queue) rest (jobsMap st),
                  idle := (if ?admit
                           then (case MinResources (jobs st ! i) of
                                   None \<Rightarrow> idle st | Some minReq \<Rightarrow> Sub (idle st) minReq)
                           else idle st),
                  jobs := (if ?admit
                           then (jobs st)[i := (jobs st ! i)\<lparr>Phase := PodGroupInqueue\<rparr>]
                           else jobs st)\<rparr>"
  have it: "enqueue_iter ssn st = Some st'"
    unfolding st'_def by (rule enqueue_iter_pop[OF pop])
  have inv: "enqueue_inv ssn st" by (rule enqueue_inv_reachable[OF reach])
  then have d: "distinct (heap_entries st)" by (simp add: enqueue_inv_def)
  note h = heap_entries_pop_set[OF pop(3) d]
  from inv h(1) have i: "i < length (jobs st)" "Phase (jobs st ! i) = PodGroupPending"
    by (auto simp: enqueue_inv_def collected_def)
  have he: "heap_entries st' = concat (map snd (AList.update (qUID queue) rest (jobsMap st)))"
    by (simp add: st'_def heap_entries_def)
  with h(3) have out: "i \<notin> set (heap_entries st')" by simp
  have later: "\<forall>st''. (enqueue_step ssn)\<^sup>*\<^sup>* st' st'' \<longrightarrow>
         i \<notin> set (heap_entries st'') \<and> Phase (jobs st'' ! i) = Phase (jobs st' ! i)"
  proof (intro allI impI)
    fix st'' assume "(enqueue_step ssn)\<^sup>*\<^sup>* st' st''"
    from enqueue_steps_outside[OF this out]
    show "i \<notin> set (heap_entries st'') \<and> Phase (jobs st'' ! i) = Phase (jobs st' ! i)" by simp
  qed
  have "enqueue_step ssn st st'" using it by (simp add: enqueue_step_def)
  with reach have reach': "enqueue_reachable ssn st'"
    unfolding enqueue_reachable_def by (rule rtranclp.rtrancl_into_rtrancl)
  have final: "\<forall>ssn'. Execute ssn = Some ssn' \<longrightarrow> Phase (Jobs ssn' ! i) = Phase (jobs st' ! i)"
  proof (intro allI impI)
    fix ssn' assume "Execute ssn = Some ssn'"
    from Execute_after_reachable[OF this reach'] obtain fin
      where fin: "(enqueue_step ssn)\<^sup>*\<^sup>* st' fin" "Jobs ssn' = jobs fin" by blast
    from enqueue_steps_outside[OF fin(1) out] fin(2)
    show "Phase (Jobs ssn' ! i) = Phase (jobs st' ! i)" by simp
  qed
  have a: "Phase (jobs st' ! i) = PodGroupInqueue \<longleftrightarrow> ?admit"
    using i by (simp add: st'_def)
  have b: "?admit \<longrightarrow> idle st' = (case MinResources (jobs st ! i) of
                       None \<Rightarrow> idle st | Some minReq \<Rightarrow> Sub (idle st) minReq)"
    by (simp add: st'_def)
  have c: "\<not> ?admit \<longrightarrow> Phase (jobs st' ! i) = PodGroupPending \<and> idle st' = idle st"
    using i by (simp add: st'_def)
  have e: "queues st' = Push (QueueOrderFn ssn) queue qs" by (simp add: st'_def)
  show ?thesis
    by (intro exI[of _ st'] conjI) (rule it i(2) a b c e later final)+
qed

theorem enqueue_admission_condition_witness:
  "enqueue_reachable overCommitSession (enqueue_init overCommitSession) \<and>
   queues (enqueue_init overCommitSession) = [overCommitQueue] \<and>
   \<not> IsEmpty (idle (enqueue_init overCommitSession)) \<and>
   map_of (jobsMap (enqueue_init overCommitSession)) (qUID overCommitQueue) = Some [0, 1, 2] \<and>
   admission_test overCommitSession (jobs (enqueue_init overCommitSession) ! 0)
     (idle (enqueue_init overCommitSession)) \<and>
   (\<exists>st'. enqueue_iter overCommitSession (enqueue_init overCommitSession) = Some st' \<and>
          Phase (jobs st' ! 0) = PodGroupInqueue \<and>
          idle st' = Sub (idle (enqueue_init overCommitSession)) [(''cpu'', 5000)] \<and>
          (\<forall>ssn'. Execute overCommitSession = Some ssn' \<longrightarrow>
             Phase (Jobs ssn' ! 0) = PodGroupInqueue))"
proof -
  have r: "enqueue_reachable overCommitSession (enqueue_init overCommitSession)"
    by (simp add: enqueue_reachable_def)
  have q: "queues (enqueue_init overCommitSession) = [overCommitQueue]" by code_simp
  have e: "\<not> IsEmpty (idle (enqueue_init overCommitSession))" by code_simp
  have m: "map_of (jobsMap (enqueue_init overCommitSession)) (qUID overCommitQueue) = Some [0, 1, 2]"
    by code_simp
  have a: "admission_test overCommitSession (jobs (enqueue_init overCommitSession) ! 0)
     (idle (enqueue_init overCommitSession))" by code_simp
  have mr: "MinResources (jobs (enqueue_init overCommitSession) ! 0) = Some [(''cpu'', 5000)]"
    by code_simp
  from enqueue_admission_condition[OF r q e m] obtain st' where
    it: "enqueue_iter overCommitSession (enqueue_init overCommitSession) = Some st'" and
    ph: "Phase (jobs st' ! 0) = PodGroupInqueue \<longleftrightarrow>
         admission_test overCommitSession (jobs (enqueue_init overCommitSession) ! 0)
           (idle (enqueue_init overCommitSession))" and
    idl: "admission_test overCommitSession (jobs (enqueue_init overCommitSession) ! 0)
           (idle (enqueue_init overCommitSession)) \<longrightarrow>
          idle st' = (case MinResources (jobs (enqueue_init overCommitSession) ! 0) of
                        None \<Rightarrow> idle (enqueue_init overCommitSession)
                      | Some minReq \<Rightarrow> Sub (idle (enqueue_init overCommitSession)) minReq)" and
    fin: "\<forall>ssn'. Execute overCommitSession = Some ssn' \<longrightarrow>
            Phase (Jobs ssn' ! 0) = Phase (jobs st' ! 0)"
    by blast
  from ph a have 1: "Phase (jobs st' ! 0) = PodGroupInqueue" by simp
  from idl a mr have 2: "idle st' = Sub (idle (enqueue_init overCommitSession)) [(''cpu'', 5000)]"
    by simp
  from fin 1 have 3: "\<forall>ssn'. Execute overCommitSession = Some ssn' \<longrightarrow>
             Phase (Jobs ssn' ! 0) = PodGroupInqueue" by simp
  from it 1 2 3 have "\<exists>st'. enqueue_iter overCommitSession (enqueue_init overCommitSession) = Some st' \<and>
          Phase (jobs st' ! 0) = PodGroupInqueue \<and>
          idle st' = Sub (idle (enqueue_init overCommitSession)) [(''cpu'', 5000)] \<and>
          (\<forall>ssn'. Execute overCommitSession = Some ssn' \<longrightarrow>
             Phase (Jobs ssn' ! 0) = PodGroupInqueue)" by blast
  with r q e m a show ?thesis by blast
qed

subsection \<open>Accounting of the idle resource\<close>

lemma admitted_as_sum:
  assumes "length after = length before"
  shows "admittedMinResources before after d =
         (\<Sum>i<length before. if movedToInqueue (before ! i, after ! i)
                              then minResQuantity (before ! i) d else 0)"
proof -
  let ?g = "\<lambda>p. if movedToInqueue p then minResQuantity (fst p) d else 0"
  have "admittedMinResources before after d = sum_list (map ?g (zip before after))"
    by (simp add: admittedMinResources_def sum_list_map_filter')
  also have "\<dots> = (\<Sum>i = 0..<length (zip before after). map ?g (zip before after) ! i)"
    by (simp add: sum_list_sum_nth)
  also have "\<dots> = (\<Sum>i = 0..<length before. if movedToInqueue (before ! i, after ! i)
                              then minResQuantity (before ! i) d else 0)"
    using assms by (intro sum.cong) auto
  finally show ?thesis by (simp only: atLeast0LessThan)
qed

lemma admitted_same [simp]: "admittedMinResources js js d = 0"
proof -
  have "\<not> movedToInqueue (j, j)" for j by (auto simp: movedToInqueue_def)
  then show ?thesis by (simp add: admitted_as_sum)
qed









subsection \<open>The state of the queues is not read\<close>

lemma qUID_set_queue_state [simp]: "qUID (set_queue_state f q) = qUID q"
  by (simp add: set_queue_state_def)

lemma Push_set_queue_state:
  assumes "\<And>q q'. ord (set_queue_state f q) (set_queue_state f q') = ord q q'"
  shows "Push ord (set_queue_state f q) (map (set_queue_state f) qs) =
         map (set_queue_state f) (Push ord q qs)"
  by (induction qs) (auto simp: assms)

lemma map_of_set_queue_state:
  "map_of (map (\<lambda>kq. (fst kq, h (snd kq))) al) k = map_option h (map_of al k)"
  by (induction al) auto

lemma update_set_queue_state:
  "AList.update k (h q) (map (\<lambda>kq. (fst kq, h (snd kq))) al) =
   map (\<lambda>kq. (fst kq, h (snd kq))) (AList.update k q al)"
  by (induction al) auto

lemma set_queue_states_simps [simp]:
  "Jobs (set_queue_states f ssn) = Jobs ssn"
  "Nodes (set_queue_states f ssn) = Nodes ssn"
  "Configurations (set_queue_states f ssn) = Configurations ssn"
  "QueueOrderFn (set_queue_states f ssn) = QueueOrderFn ssn"
  "JobOrderFn (set_queue_states f ssn) = JobOrderFn ssn"
  "JobEnqueueable (set_queue_states f ssn) = JobEnqueueable ssn"
  "map_of (Queues (set_queue_states f ssn)) k = map_option (set_queue_state f) (map_of (Queues ssn) k)"
  by (simp_all add: set_queue_states_def map_of_set_queue_state)

lemma set_queue_states_st_simps [simp]:
  "jobs (set_queue_states_st f st) = jobs st"
  "idle (set_queue_states_st f st) = idle st"
  "jobsMap (set_queue_states_st f st) = jobsMap st"
  "queues (set_queue_states_st f st) = map (set_queue_state f) (queues st)"
  "queueMap (set_queue_states_st f st) = map (\<lambda>kq. (fst kq, set_queue_state f (snd kq))) (queueMap st)"
  by (simp_all add: set_queue_states_st_def)

lemma EnqueueState_eqI:
  "queues a = queues b \<Longrightarrow> queueMap a = queueMap b \<Longrightarrow> jobsMap a = jobsMap b \<Longrightarrow>
   idle a = idle b \<Longrightarrow> jobs a = jobs b \<Longrightarrow> (a :: EnqueueState) = b"
  by simp

lemma collect_job_set_queue_states:
  assumes "\<And>q q'. QueueOrderFn ssn (set_queue_state f q) (set_queue_state f q') = QueueOrderFn ssn q q'"
  shows "collect_job (set_queue_states f ssn) (set_queue_states_st f st) i =
         set_queue_states_st f (collect_job ssn st i)"
proof (cases "map_of (Queues ssn) (jQueue (Jobs ssn ! i))")
  case None
  then show ?thesis by (simp add: collect_job_def)
next
  case (Some queue)
  note P = Push_set_queue_state[of "QueueOrderFn ssn" f, OF assms]
  show ?thesis
  proof (cases "map_of (queueMap st) (qUID queue)")
    case None
    with Some show ?thesis
      by (intro EnqueueState_eqI)
         (simp_all add: collect_job_def Let_def map_of_set_queue_state P update_set_queue_state)
  next
    case (Some q')
    with \<open>map_of (Queues ssn) (jQueue (Jobs ssn ! i)) = Some queue\<close> show ?thesis
      by (intro EnqueueState_eqI)
         (simp_all add: collect_job_def Let_def map_of_set_queue_state)
  qed
qed

lemma foldl_collect_set_queue_states:
  assumes "\<And>q q'. QueueOrderFn ssn (set_queue_state f q) (set_queue_state f q') = QueueOrderFn ssn q q'"
  shows "foldl (collect_job (set_queue_states f ssn)) (set_queue_states_st f st) is =
         set_queue_states_st f (foldl (collect_job ssn) st is)"
  by (induction "is" arbitrary: st) (simp_all add: collect_job_set_queue_states[OF assms])

lemma initial_idle_set_queue_states [simp]:
  "initial_idle (set_queue_states f ssn) = initial_idle ssn"
  by (simp add: initial_idle_def getOverCommitFactor_def)

lemma enqueue_init_set_queue_states:
  assumes "\<And>q q'. QueueOrderFn ssn (set_queue_state f q) (set_queue_state f q') = QueueOrderFn ssn q q'"
  shows "enqueue_init (set_queue_states f ssn) = set_queue_states_st f (enqueue_init ssn)"
proof -
  let ?st0 = "\<lparr>queues = [], queueMap = [], jobsMap = [], idle = EmptyResource, jobs = Jobs ssn\<rparr>"
  have "set_queue_states_st f ?st0 = ?st0" by (simp add: set_queue_states_st_def)
  with foldl_collect_set_queue_states[OF assms, of ?st0 "[0..<length (Jobs ssn)]"]
  show ?thesis
    by (intro EnqueueState_eqI) (simp_all add: enqueue_init_def)
qed

lemma enqueue_iter_set_queue_states:
  assumes "\<And>q q'. QueueOrderFn ssn (set_queue_state f q) (set_queue_state f q') = QueueOrderFn ssn q q'"
  shows "enqueue_iter (set_queue_states f ssn) (set_queue_states_st f st) =
         map_option (set_queue_states_st f) (enqueue_iter ssn st)"
proof (cases "enqueue_iter ssn st")
  case None
  then have "queues st = [] \<or> IsEmpty (idle st)" by (simp add: enqueue_iter_break)
  then have "enqueue_iter (set_queue_states f ssn) (set_queue_states_st f st) = None"
    by (simp add: enqueue_iter_break)
  with None show ?thesis by simp
next
  case (Some st')
  note P = Push_set_queue_state[of "QueueOrderFn ssn" f, OF assms]
  from Some show ?thesis
  proof (cases rule: enqueue_iter_cases)
    case (drop queue qs)
    then have "enqueue_iter (set_queue_states f ssn) (set_queue_states_st f st) =
               Some ((set_queue_states_st f st)\<lparr>queues := map (set_queue_state f) qs\<rparr>)"
      by (intro enqueue_iter_drop[of "set_queue_states_st f st" "set_queue_state f queue"]) simp_all
    with drop Some show ?thesis by (simp add: set_queue_states_st_def)
  next
    case (pop queue qs i rest)
    have a: "admission_test (set_queue_states f ssn) = admission_test ssn"
      by (intro ext) (simp add: admission_test_def split: option.splits)
    from pop have "queues (set_queue_states_st f st) = set_queue_state f queue # map (set_queue_state f) qs"
      "\<not> IsEmpty (idle (set_queue_states_st f st))"
      "map_of (jobsMap (set_queue_states_st f st)) (qUID (set_queue_state f queue)) = Some (i # rest)"
      by simp_all
    from enqueue_iter_pop[OF this, of "set_queue_states f ssn"]
    have "enqueue_iter (set_queue_states f ssn) (set_queue_states_st f st) =
          Some (set_queue_states_st f
            (st\<lparr>queues := Push (QueueOrderFn ssn) queue qs,
                  jobsMap := AList.update (qUID queue) rest (jobsMap st),
                  idle := (if admission_test ssn (jobs st ! i) (idle st)
                           then (case MinResources (jobs st ! i) of
                                   None \<Rightarrow> idle st | Some minReq \<Rightarrow> Sub (idle st) minReq)
                           else idle st),
                  jobs := (if admission_test ssn (jobs st ! i) (idle st)
                           then (jobs st)[i := (jobs st ! i)\<lparr>Phase := PodGroupInqueue\<rparr>]
                           else jobs st)\<rparr>))"
      by (simp add: a P cong: if_cong option.case_cong)
    with enqueue_iter_pop[OF pop, of ssn] show ?thesis by simp
  qed
qed

lemma enqueue_loop_break:
  "enqueue_iter ssn st = None \<Longrightarrow> enqueue_loop ssn st = Some st"
  by (subst enqueue_loop.simps) simp

lemma enqueue_loop_set_queue_states:
  assumes "\<And>q q'. QueueOrderFn ssn (set_queue_state f q) (set_queue_state f q') = QueueOrderFn ssn q q'"
  shows "enqueue_loop (set_queue_states f ssn) (set_queue_states_st f st) =
         map_option (set_queue_states_st f) (enqueue_loop ssn st)"
proof (induction "enqueue_measure st" arbitrary: st rule: less_induct)
  case less
  note it = enqueue_iter_set_queue_states[OF assms, of st]
  show ?case
  proof (cases "enqueue_iter ssn st")
    case None
    with it have "enqueue_iter (set_queue_states f ssn) (set_queue_states_st f st) = None" by simp
    from enqueue_loop_break[OF this] enqueue_loop_break[OF None] show ?thesis by simp
  next
    case (Some st1)
    with it have "enqueue_iter (set_queue_states f ssn) (set_queue_states_st f st) =
                  Some (set_queue_states_st f st1)" by simp
    from enqueue_loop_step[OF this] enqueue_loop_step[OF Some]
      less[OF enqueue_iter_measure[OF Some]]
    show ?thesis by simp
  qed
qed

lemma Execute_set_queue_states:
  assumes "\<And>q q'. QueueOrderFn ssn (set_queue_state f q) (set_queue_state f q') = QueueOrderFn ssn q q'"
  shows "map_option Jobs (Execute (set_queue_states f ssn)) = map_option Jobs (Execute ssn)"
  by (simp add: Execute_def enqueue_init_set_queue_states[OF assms]
        enqueue_loop_set_queue_states[OF assms] option.map_comp comp_def)

lemma Execute_missing_queue:
  assumes "Execute ssn = Some ssn'" "i < length (Jobs ssn)"
    "map_of (Queues ssn) (jQueue (Jobs ssn ! i)) = None"
  shows "Jobs ssn' ! i = Jobs ssn ! i"
proof -
  from assms(1) obtain fin where fin: "enqueue_reachable ssn fin" "ssn' = ssn\<lparr>Jobs := jobs fin\<rparr>"
    by (rule Execute_final)
  from enqueue_inv_reachable[OF fin(1)] assms(2)
  have "jobs fin ! i = Jobs ssn ! i \<or> collected ssn i"
    by (auto simp: enqueue_inv_def)
  with assms(3) fin(2) show ?thesis by (auto simp: collected_def)
qed

text \<open>
  C1 (amended): the enqueue action does not read the state of a queue. The jobs
  \<open>Execute\<close> excludes because of their queue are those whose queue is not among
  \<open>ssn.Queues\<close>: such a job is left as it was, so a \<open>Pending\<close> one stays \<open>Pending\<close>. For a
  \<open>QueueOrderFn\<close> that does not depend on the state of the queues, \<open>Execute\<close> leaves the
  jobs the same whatever the states of the queues are: a \<open>Pending\<close> job of a \<open>Closed\<close>
  queue is admitted under the same test as a job of an \<open>Open\<close> queue.
\<close>

theorem enqueue_queue_state_not_consulted:
  "(\<forall>ssn' i. Execute ssn = Some ssn' \<longrightarrow> i < length (Jobs ssn) \<longrightarrow>
       map_of (Queues ssn) (jQueue (Jobs ssn ! i)) = None \<longrightarrow> Jobs ssn' ! i = Jobs ssn ! i) \<and>
   ((\<forall>q q'. QueueOrderFn ssn (set_queue_state f q) (set_queue_state f q') = QueueOrderFn ssn q q') \<longrightarrow>
      map_option Jobs (Execute (set_queue_states f ssn)) = map_option Jobs (Execute ssn))"
proof (intro conjI allI impI)
  fix ssn' i
  assume "Execute ssn = Some ssn'" "i < length (Jobs ssn)"
    "map_of (Queues ssn) (jQueue (Jobs ssn ! i)) = None"
  then show "Jobs ssn' ! i = Jobs ssn ! i" by (rule Execute_missing_queue)
next
  assume "\<forall>q q'. QueueOrderFn ssn (set_queue_state f q) (set_queue_state f q') = QueueOrderFn ssn q q'"
  then show "map_option Jobs (Execute (set_queue_states f ssn)) = map_option Jobs (Execute ssn)"
    by (intro Execute_set_queue_states) simp
qed

theorem enqueue_queue_state_not_consulted_witness:
  "map_option (map Phase \<circ> Jobs) (Execute missingQueueSession)
     = Some [PodGroupInqueue, PodGroupPending] \<and>
   map_of (Queues missingQueueSession) (jQueue (Jobs missingQueueSession ! 1)) = None \<and>
   map_option (\<lambda>ssn'. Jobs ssn' ! 1) (Execute missingQueueSession)
     = Some (Jobs missingQueueSession ! 1) \<and>
   map_option Jobs (Execute (set_queue_states (\<lambda>q. QueueStateOpen) missingQueueSession))
     = map_option Jobs (Execute missingQueueSession)"
proof -
  have e: "map_option (map Phase \<circ> Jobs) (Execute missingQueueSession)
     = Some [PodGroupInqueue, PodGroupPending]" by code_simp
  then obtain ssn' where r: "Execute missingQueueSession = Some ssn'" by auto
  have l: "1 < length (Jobs missingQueueSession)" by code_simp
  have m: "map_of (Queues missingQueueSession) (jQueue (Jobs missingQueueSession ! 1)) = None"
    by code_simp
  have o: "\<forall>q q'. QueueOrderFn missingQueueSession (set_queue_state (\<lambda>q. QueueStateOpen) q)
             (set_queue_state (\<lambda>q. QueueStateOpen) q') = QueueOrderFn missingQueueSession q q'"
    by (simp add: missingQueueSession_def closedQueueSession_def)
  note t = enqueue_queue_state_not_consulted[of missingQueueSession "\<lambda>q. QueueStateOpen"]
  from t r l m have "Jobs ssn' ! 1 = Jobs missingQueueSession ! 1" by blast
  with r have a: "map_option (\<lambda>ssn'. Jobs ssn' ! 1) (Execute missingQueueSession)
     = Some (Jobs missingQueueSession ! 1)" by simp
  from t o have b: "map_option Jobs (Execute (set_queue_states (\<lambda>q. QueueStateOpen) missingQueueSession))
     = map_option Jobs (Execute missingQueueSession)" by blast
  show ?thesis by (intro conjI) (rule e m a b)+
qed

text \<open>
  C1 as stated fails: in \<open>closedQueueSession\<close> the only job is \<open>Pending\<close>, its queue
  \<open>c1\<close> is \<open>Closed\<close>, and \<open>Execute\<close> sets the job to \<open>Inqueue\<close>.
\<close>

theorem enqueue_closed_queue_counterexample:
  "map_option qState (map_of (Queues closedQueueSession) (jQueue (Jobs closedQueueSession ! 0)))
     = Some QueueStateClosed \<and>
   Phase (Jobs closedQueueSession ! 0) = PodGroupPending \<and>
   map_option (\<lambda>ssn'. Phase (Jobs ssn' ! 0)) (Execute closedQueueSession) = Some PodGroupInqueue"
  by code_simp

subsection \<open>Termination of the enqueue action\<close>

lemma enqueue_iter_progress:
  assumes "enqueue_iter ssn st = Some st'"
  shows "(length (queues st') < length (queues st) \<and> heap_entries st' = heap_entries st) \<or>
         (length (queues st') = length (queues st) \<and>
          (\<exists>i. mset (heap_entries st) = add_mset i (mset (heap_entries st'))))"
  using assms
proof (cases rule: enqueue_iter_cases)
  case (drop queue qs)
  then show ?thesis by (simp add: heap_entries_def)
next
  case (pop queue qs i rest)
  from assms enqueue_iter_pop[OF pop, of ssn]
  have "heap_entries st' = concat (map snd (AList.update (qUID queue) rest (jobsMap st)))"
    "length (queues st') = length (queues st)"
    using pop(1) by (auto simp: heap_entries_def)
  with heap_entries_pop[OF pop(3)] show ?thesis by auto
qed

text \<open>
  C10: the main loop of the enqueue action terminates on every input, so
  \<open>enqueue.Execute\<close> always returns. An iteration breaks exactly when the queue of
  queues is empty or the idle resource is empty; any other iteration either drops the
  popped queue (the queue of queues gets shorter and the job queues stay as they are) or
  pushes the queue back after popping one job, which leaves the job queues with exactly
  that one entry less: no job is ever inserted into a job queue by the loop.
\<close>

theorem enqueue_Execute_returns:
  "(\<exists>ssn'. Execute ssn = Some ssn') \<and>
   (\<forall>st. enqueue_iter ssn st = None \<longleftrightarrow> queues st = [] \<or> IsEmpty (idle st)) \<and>
   (\<forall>st st'. enqueue_iter ssn st = Some st' \<longrightarrow>
      (length (queues st') < length (queues st) \<and> heap_entries st' = heap_entries st) \<or>
      (length (queues st') = length (queues st) \<and>
       (\<exists>i. mset (heap_entries st) = add_mset i (mset (heap_entries st')))))"
proof (intro conjI allI impI)
  show "\<exists>ssn'. Execute ssn = Some ssn'"
    using enqueue_loop_returns[of ssn "enqueue_init ssn"] by (auto simp: Execute_def)
next
  fix st show "enqueue_iter ssn st = None \<longleftrightarrow> queues st = [] \<or> IsEmpty (idle st)"
    by (rule enqueue_iter_break)
next
  fix st st' assume "enqueue_iter ssn st = Some st'"
  then show "(length (queues st') < length (queues st) \<and> heap_entries st' = heap_entries st) \<or>
      (length (queues st') = length (queues st) \<and>
       (\<exists>i. mset (heap_entries st) = add_mset i (mset (heap_entries st'))))"
    by (rule enqueue_iter_progress)
qed

theorem enqueue_Execute_returns_witness:
  "(\<exists>ssn'. Execute closedQueueSession = Some ssn' \<and> map Phase (Jobs ssn') = [PodGroupInqueue]) \<and>
   (\<exists>st'. enqueue_iter closedQueueSession (enqueue_init closedQueueSession) = Some st' \<and>
          length (queues st') = length (queues (enqueue_init closedQueueSession)) \<and>
          heap_entries (enqueue_init closedQueueSession) = [0] \<and> heap_entries st' = [])"
proof -
  note t = enqueue_Execute_returns[of closedQueueSession]
  from t obtain ssn' where r: "Execute closedQueueSession = Some ssn'" by blast
  have "map_option (map Phase \<circ> Jobs) (Execute closedQueueSession) = Some [PodGroupInqueue]"
    by code_simp
  with r have 1: "\<exists>ssn'. Execute closedQueueSession = Some ssn' \<and>
      map Phase (Jobs ssn') = [PodGroupInqueue]" by simp
  have h0: "heap_entries (enqueue_init closedQueueSession) = [0]" by code_simp
  have "map_option heap_entries (enqueue_iter closedQueueSession (enqueue_init closedQueueSession))
        = Some []" by code_simp
  then obtain st' where s: "enqueue_iter closedQueueSession (enqueue_init closedQueueSession) = Some st'"
    "heap_entries st' = []" by auto
  from t s(1) have "(length (queues st') < length (queues (enqueue_init closedQueueSession)) \<and>
        heap_entries st' = heap_entries (enqueue_init closedQueueSession)) \<or>
      (length (queues st') = length (queues (enqueue_init closedQueueSession)) \<and>
       (\<exists>i. mset (heap_entries (enqueue_init closedQueueSession)) = add_mset i (mset (heap_entries st'))))"
    by blast
  with h0 s(2) have "length (queues st') = length (queues (enqueue_init closedQueueSession))"
    by auto
  with s h0 have 2: "\<exists>st'. enqueue_iter closedQueueSession (enqueue_init closedQueueSession) = Some st' \<and>
          length (queues st') = length (queues (enqueue_init closedQueueSession)) \<and>
          heap_entries (enqueue_init closedQueueSession) = [0] \<and> heap_entries st' = []" by blast
  from 1 2 show ?thesis by (rule conjI)
qed

subsection \<open>The job controller\<close>

lemma onQueue_simps [simp]:
  "recorded (onQueue i f cc) = recorded cc"
  "workers (onQueue i f cc) = workers cc"
  "length (queueList (onQueue i f cc)) = length (queueList cc)"
  "i < length (queueList cc) \<Longrightarrow> queueList (onQueue i f cc) ! i = f (queueList cc ! i)"
  by (simp_all add: onQueue_def)

lemma recordJobEvent_simps [simp]:
  "queueList (recordJobEvent ns n e m cc) = queueList cc"
  "workers (recordJobEvent ns n e m cc) = workers cc"
  "recorded (recordJobEvent ns n e m cc) =
     recorded cc @ [\<lparr>evNamespace = ns, evName = n, evReason = e, evMessage = m\<rparr>]"
  by (simp_all add: recordJobEvent_def)

lemma belongsToThisRoutine_onQueue [simp]:
  "belongsToThisRoutine (onQueue i f cc) key cnt = belongsToThisRoutine cc key cnt"
  by (simp add: belongsToThisRoutine_def)

lemma backoff_below_cap:
  assumes "n < 15"
  shows "baseDelay * 2 ^ n \<le> maxDelay"
proof -
  from assms have "n \<le> 14" by simp
  then have "(2::int) ^ n \<le> 2 ^ 14" by (intro power_increasing) simp_all
  then have "baseDelay * 2 ^ n \<le> baseDelay * 2 ^ 14"
    by (simp add: baseDelay_def)
  also have "\<dots> \<le> maxDelay" by (simp add: baseDelay_def maxDelay_def)
  finally show ?thesis .
qed

lemma wq_AddRateLimited_retry:
  assumes "wq_failures q item < 15" "\<not> wq_shuttingDown q"
  shows "wq_AddRateLimited q item =
         q\<lparr>wq_failures := (wq_failures q)(item := wq_failures q item + 1),
           wq_waiting := wq_waiting q @ [(item, 5000000 * 2 ^ wq_failures q item)]\<rparr>"
proof -
  from backoff_below_cap[OF assms(1)] have "\<not> baseDelay * 2 ^ wq_failures q item > maxDelay" by simp
  moreover have "0 < baseDelay * 2 ^ wq_failures q item" by (simp add: baseDelay_def)
  ultimately show ?thesis using assms(2)
    by (simp add: wq_AddRateLimited_def wq_When_def wq_AddAfter_def Let_def) (simp add: baseDelay_def)
qed

lemma wq_When_positive: "0 < fst (wq_When q item)"
  by (simp add: wq_When_def Let_def baseDelay_def maxDelay_def)

lemma wq_AddRateLimited_keeps:
  "wq_queue (wq_AddRateLimited q item) = wq_queue q"
  "wq_dirty (wq_AddRateLimited q item) = wq_dirty q"
  "wq_processing (wq_AddRateLimited q item) = wq_processing q"
  "wq_failures (wq_AddRateLimited q item) = (wq_failures q)(item := wq_failures q item + 1)"
proof -
  obtain d q1 where w: "wq_When q item = (d, q1)" by (cases "wq_When q item")
  with wq_When_positive[of q item] have d: "\<not> d \<le> 0" by simp
  from w have q1: "q1 = q\<lparr>wq_failures := (wq_failures q)(item := wq_failures q item + 1)\<rparr>"
    by (auto simp: wq_When_def Let_def)
  show "wq_queue (wq_AddRateLimited q item) = wq_queue q"
    "wq_dirty (wq_AddRateLimited q item) = wq_dirty q"
    "wq_processing (wq_AddRateLimited q item) = wq_processing q"
    "wq_failures (wq_AddRateLimited q item) = (wq_failures q)(item := wq_failures q item + 1)"
    using d by (simp_all add: wq_AddRateLimited_def w wq_AddAfter_def q1)
qed

lemma wq_Done_after_Get:
  assumes "wq_Get q0 = GotItem req q"
  shows "req \<notin> wq_dirty q" "wq_failures q = wq_failures q0" "wq_waiting q = wq_waiting q0"
    "wq_shuttingDown q = wq_shuttingDown q0"
  using assms by (auto simp: wq_Get_def split: list.splits if_splits)

text \<open>
  C8: bounded retry with drop on exhaustion. When a worker of the job controller has taken
  a request from its queue, the request belongs to the worker, the job is in the cache and
  a state was built for it, then \<open>processNextReq\<close> returns true and the request is no
  longer queued. If executing the action fails and the number of requeues of the request is
  below \<open>maxRetries = 15\<close>, the request is added again rate-limited: its failure count
  goes up by one and (unless the queue is shutting down) it waits for \<open>5ms * 2^n\<close>, \<open>n\<close>
  being the count before; no retry-limit event is recorded. If the action fails and the
  count has reached 15, the request is not added again, the event "Job failed on action
  ... for retry limit reached" is recorded on the job and the failure count is forgotten.
  If the action succeeds the failure count is forgotten.
\<close>

theorem processNextReq_bounded_retry:
  assumes idx: "unat cnt < length (queueList cc)"
    and get: "wq_Get (queueList cc ! unat cnt) = GotItem req queue"
    and own: "workers cc \<noteq> 0" "belongsToThisRoutine cc (JobKeyByReq env req) cnt"
    and job: "cache_Get env (JobKeyByReq env req) = Inr jobInfo"
    and st: "NewState env jobInfo = Some st"
  shows "\<exists>cc'. processNextReq env cc cnt = Return (True, cc') \<and>
     (let q' = queueList cc' ! unat cnt;
          n = wq_failures queue req;
          action = applyPolicies env (Job jobInfo) req;
          failed = (st_Execute env st action \<noteq> None);
          started = (if action \<noteq> SyncJobAction
                     then [\<lparr>evNamespace = jobNamespace (Job jobInfo), evName = jobName (Job jobInfo),
                            evReason = ExecuteAction,
                            evMessage = ''Start to execute action '' @ action @ '' ''\<rparr>]
                     else []);
          dropped = \<lparr>evNamespace = jobNamespace (Job jobInfo), evName = jobName (Job jobInfo),
                      evReason = ExecuteAction,
                      evMessage = ''Job failed on action '' @ action @ '' for retry limit reached''\<rparr>
      in wq_queue q' = wq_queue queue \<and>
         (failed \<and> int n < 15 \<longrightarrow>
            wq_failures q' req = n + 1 \<and> recorded cc' = recorded cc @ started \<and>
            (\<not> wq_shuttingDown queue \<longrightarrow>
               wq_waiting q' = wq_waiting queue @ [(req, 5000000 * 2 ^ n)])) \<and>
         (failed \<and> \<not> int n < 15 \<longrightarrow>
            wq_failures q' req = 0 \<and> wq_waiting q' = wq_waiting queue \<and>
            recorded cc' = recorded cc @ started @ [dropped]) \<and>
         (\<not> failed \<longrightarrow>
            wq_failures q' req = 0 \<and> wq_waiting q' = wq_waiting queue \<and>
            recorded cc' = recorded cc @ started))"
proof -
  note g = wq_Done_after_Get[OF get]
  define action where "action = applyPolicies env (Job jobInfo) req"
  define cc1 where "cc1 = onQueue (unat cnt) (\<lambda>_. queue) cc"
  define cc2 where "cc2 = (if action \<noteq> SyncJobAction
                                     then recordJobEvent (jobNamespace (Job jobInfo)) (jobName (Job jobInfo))
                                            ExecuteAction (''Start to execute action '' @ action @ '' '') cc1
                                     else cc1)"
  have q2: "queueList cc2 ! unat cnt = queue" "length (queueList cc2) = length (queueList cc)"
    using idx by (simp_all add: cc2_def cc1_def)
  have q2': "queueList (if applyPolicies env (Job jobInfo) req \<noteq> SyncJobAction
                        then recordJobEvent ns nm ev msg (onQueue (unat cnt) (\<lambda>_. queue) cc)
                        else onQueue (unat cnt) (\<lambda>_. queue) cc) ! unat cnt = queue" for ns nm ev msg
    using idx by simp
  have r2: "recorded cc2 = recorded cc @ (if action \<noteq> SyncJobAction
                     then [\<lparr>evNamespace = jobNamespace (Job jobInfo), evName = jobName (Job jobInfo),
                            evReason = ExecuteAction,
                            evMessage = ''Start to execute action '' @ action @ '' ''\<rparr>]
                     else [])"
    by (simp add: cc2_def cc1_def)
  show ?thesis
  proof (cases "st_Execute env st action")
    case None
    let ?cc' = "onQueue (unat cnt) (\<lambda>q. wq_Done q req) (onQueue (unat cnt) (\<lambda>q. wq_Forget q req) cc2)"
    have "processNextReq env cc cnt = Return (True, ?cc')"
      using idx get own job st None
      by (simp add: processNextReq_def Let_def cc1_def action_def cc2_def)
    moreover have "queueList ?cc' ! unat cnt = wq_Done (wq_Forget queue req) req"
      using idx q2 by simp
    ultimately show ?thesis
      using None g r2
      by (simp add: Let_def action_def[symmetric] wq_Done_def wq_Forget_def)
  next
    case (Some err)
    show ?thesis
    proof (cases "int (wq_failures queue req) < 15")
      case True
      let ?cc' = "onQueue (unat cnt) (\<lambda>q. wq_Done q req)
                    (onQueue (unat cnt) (\<lambda>q. wq_AddRateLimited q req) cc2)"
      have "processNextReq env cc cnt = Return (True, ?cc')"
        using idx get own job st Some True q2'
        by (simp add: processNextReq_def Let_def cc1_def action_def cc2_def
              wq_NumRequeues_def maxRetries_def)
      moreover have q': "queueList ?cc' ! unat cnt = wq_Done (wq_AddRateLimited queue req) req"
        using idx q2 by simp
      moreover have "wq_queue (wq_Done (wq_AddRateLimited queue req) req) = wq_queue queue"
        "wq_failures (wq_Done (wq_AddRateLimited queue req) req) req = wq_failures queue req + 1"
        using g(1) by (simp_all add: wq_Done_def wq_AddRateLimited_keeps Let_def)
      moreover have "\<not> wq_shuttingDown queue \<Longrightarrow>
         wq_waiting (wq_Done (wq_AddRateLimited queue req) req) =
           wq_waiting queue @ [(req, 5000000 * 2 ^ wq_failures queue req)]"
        using True g(1) by (simp add: wq_AddRateLimited_retry wq_Done_def)
      ultimately show ?thesis
        using Some True r2
        by (simp add: Let_def action_def[symmetric])
    next
      case False
      let ?ev = "''Job failed on action '' @ action @ '' for retry limit reached''"
      let ?cc' = "onQueue (unat cnt) (\<lambda>q. wq_Done q req)
                    (onQueue (unat cnt) (\<lambda>q. wq_Forget q req)
                       (recordJobEvent (jobNamespace (Job jobInfo)) (jobName (Job jobInfo))
                          ExecuteAction ?ev cc2))"
      have "processNextReq env cc cnt = Return (True, ?cc')"
        using idx get own job st Some False q2'
        by (simp add: processNextReq_def Let_def cc1_def action_def cc2_def
              wq_NumRequeues_def maxRetries_def)
      moreover have "queueList ?cc' ! unat cnt = wq_Done (wq_Forget queue req) req"
        using idx q2 by simp
      ultimately show ?thesis
        using Some False g r2
        by (simp add: Let_def action_def[symmetric] wq_Done_def wq_Forget_def)
    qed
  qed
qed

theorem processNextReq_bounded_retry_witness:
  "(\<exists>cc'. processNextReq failingEnv (retryController 3) 0 = Return (True, cc') \<and>
          wq_queue (queueList cc' ! 0) = [] \<and>
          wq_waiting (queueList cc' ! 0) = [(retryRequest, 40000000)] \<and>
          wq_failures (queueList cc' ! 0) retryRequest = 4 \<and>
          recorded cc' = []) \<and>
   (\<exists>cc'. processNextReq failingEnv (retryController 15) 0 = Return (True, cc') \<and>
          wq_queue (queueList cc' ! 0) = [] \<and>
          wq_waiting (queueList cc' ! 0) = [] \<and>
          wq_failures (queueList cc' ! 0) retryRequest = 0 \<and>
          recorded cc' =
            [\<lparr>evNamespace = ''test'', evName = ''job1'', evReason = ''ExecuteAction'',
              evMessage = ''Job failed on action SyncJob for retry limit reached''\<rparr>])"
proof -
  define queue where "queue n = (retryQueue n)\<lparr>wq_queue := [], wq_processing := {retryRequest},
      wq_dirty := {}\<rparr>" for n
  have idx: "unat (0 :: 32 word) < length (queueList (retryController n))" for n
    by (simp add: retryController_def)
  have get: "wq_Get (queueList (retryController n) ! unat (0 :: 32 word)) = GotItem retryRequest (queue n)" for n
    by (simp add: retryController_def wq_Get_def retryQueue_def queue_def)
  have own: "workers (retryController n) \<noteq> 0"
    "belongsToThisRoutine (retryController n) (JobKeyByReq failingEnv retryRequest) 0" for n
    by (simp_all add: retryController_def belongsToThisRoutine_def)
  have job: "cache_Get failingEnv (JobKeyByReq failingEnv retryRequest) = Inr \<lparr>Job = retryJob\<rparr>"
    by (simp add: failingEnv_def)
  have st: "NewState failingEnv \<lparr>Job = retryJob\<rparr> = Some ()"
    by (simp add: failingEnv_def)
  have f: "wq_failures (queue n) retryRequest = n" "wq_waiting (queue n) = []"
    "wq_queue (queue n) = []" "\<not> wq_shuttingDown (queue n)" for n
    by (simp_all add: queue_def retryQueue_def)
  have a: "applyPolicies failingEnv retryJob retryRequest = SyncJobAction"
    "st_Execute failingEnv () SyncJobAction = Some ''failed to sync job''"
    "st_Execute failingEnv () ''SyncJob'' = Some ''failed to sync job''"
    by (simp_all add: failingEnv_def)
  have j: "jobNamespace retryJob = ''test''" "jobName retryJob = ''job1''"
    by (simp_all add: retryJob_def)
  from processNextReq_bounded_retry[OF idx get own job st, of 3]
  have 1: "\<exists>cc'. processNextReq failingEnv (retryController 3) 0 = Return (True, cc') \<and>
          wq_queue (queueList cc' ! 0) = [] \<and>
          wq_waiting (queueList cc' ! 0) = [(retryRequest, 40000000)] \<and>
          wq_failures (queueList cc' ! 0) retryRequest = 4 \<and>
          recorded cc' = []"
    by (auto simp add: Let_def f a retryController_def)
  from processNextReq_bounded_retry[OF idx get own job st, of 15]
  have 2: "\<exists>cc'. processNextReq failingEnv (retryController 15) 0 = Return (True, cc') \<and>
          wq_queue (queueList cc' ! 0) = [] \<and>
          wq_waiting (queueList cc' ! 0) = [] \<and>
          wq_failures (queueList cc' ! 0) retryRequest = 0 \<and>
          recorded cc' =
            [\<lparr>evNamespace = ''test'', evName = ''job1'', evReason = ''ExecuteAction'',
              evMessage = ''Job failed on action SyncJob for retry limit reached''\<rparr>]"
    by (auto simp add: Let_def f a j retryController_def SyncJobAction_def ExecuteAction_def)
  from 1 2 show ?thesis by (rule conjI)
qed

subsection \<open>The garbage collector\<close>

lemma enqueueAfter_api [simp]:
  "apiJobs (enqueueAfter gb job t) = apiJobs gb"
  "deleteCalls (enqueueAfter gb job t) = deleteCalls gb"
  by (simp_all add: enqueueAfter_def)

lemma processTTL_api:
  assumes "processTTL gb job now = (r, gb1)"
  shows "apiJobs gb1 = apiJobs gb" "deleteCalls gb1 = deleteCalls gb"
  using assms
  by (auto simp: processTTL_def split: if_splits sum.splits)

lemma processTTL_expired:
  assumes "processTTL gb job now = ((True, e), gb1)"
  shows "ttl_expired job now" "gb1 = gb" "e = None"
proof -
  from assms have d: "DeletionTimestamp job = None" "needsCleanup job"
    by (auto simp: processTTL_def split: if_splits)
  with assms obtain t where t: "timeLeft job now = Inr t" "t \<le> 0" and g: "gb1 = gb" "e = None"
    by (auto simp: processTTL_def split: if_splits sum.splits)
  from d(2) obtain ttl where ttl: "TTLSecondsAfterFinished job = Some ttl" and f: "isJobFinished job"
    by (auto simp: needsCleanup_def)
  from t(1) d(2) ttl have "t = LastTransitionTime job + ttl * Second - now"
    by (auto simp: timeLeft_def getFinishAndExpireTime_def jobFinishTime_def
          split: if_splits sum.splits)
  with t(2) d(1) ttl f show "ttl_expired job now"
    by (simp add: ttl_expired_def isJobFinished_def)
  from g show "gb1 = gb" "e = None" by simp_all
qed

lemma client_Delete_effect:
  assumes "client_Delete gb namespace name options = (err, gb')"
  shows "deleteCalls gb' = deleteCalls gb @ [(namespace, name, options)]"
    and "\<And>k. apiJobs gb' k \<noteq> apiJobs gb k \<Longrightarrow>
           k = (namespace, name) \<and> apiJobs gb' k = None \<and>
           (\<exists>stored. apiJobs gb k = Some stored \<and>
              (\<forall>uid. Preconditions_UID options = Some uid \<longrightarrow> jobUID stored = uid))"
  using assms
  by (auto simp: client_Delete_def Let_def split: option.splits if_splits)

text \<open>
  C9: \<open>processJob\<close> issues a delete call only after the expiry check has passed twice,
  once on the copy from the lister and once on the copy freshly fetched from the API
  server, and a copy passes only if its \<open>DeletionTimestamp\<close> is nil, its
  \<open>TTLSecondsAfterFinished\<close> is not nil, its phase is \<open>Completed\<close>, \<open>Failed\<close> or
  \<open>Terminated\<close> and its finish time plus the TTL is not after the time of the check. In
  every other case, in particular when either call of \<open>processTTL\<close> reports not-expired,
  \<open>processJob\<close> returns without a delete call and the stored jobs are unchanged. The one delete call
  names the fresh copy and carries its UID as precondition, so the only job that can
  disappear is the stored job of that name with the UID of the fresh copy: a job
  re-created under the same name with another UID is not deleted.
\<close>

theorem processJob_deletes_only_expired:
  assumes "processJob env gb key now1 now2 = (err, gb')"
  shows "(deleteCalls gb' = deleteCalls gb \<and> apiJobs gb' = apiJobs gb) \<or>
         (\<exists>namespace name job fresh.
            SplitMetaNamespaceKey key = Inr (namespace, name) \<and>
            lister_Get env namespace name = Found job \<and>
            client_Get env namespace name = Found fresh \<and>
            processTTL gb job now1 = ((True, None), gb) \<and>
            processTTL gb fresh now2 = ((True, None), gb) \<and>
            ttl_expired job now1 \<and> ttl_expired fresh now2 \<and>
            deleteCalls gb' = deleteCalls gb @
              [(jobNamespace fresh, jobName fresh,
                \<lparr>PropagationPolicy = Some DeletePropagationForeground,
                 Preconditions_UID = Some (jobUID fresh)\<rparr>)] \<and>
            (\<forall>k. apiJobs gb' k \<noteq> apiJobs gb k \<longrightarrow>
                 k = (jobNamespace fresh, jobName fresh) \<and> apiJobs gb' k = None \<and>
                 (\<exists>stored. apiJobs gb k = Some stored \<and> jobUID stored = jobUID fresh)))"
proof (cases "deleteCalls gb' = deleteCalls gb \<and> apiJobs gb' = apiJobs gb")
  case True
  then show ?thesis by blast
next
  case False
  from assms False obtain namespace name where key: "SplitMetaNamespaceKey key = Inr (namespace, name)"
    by (cases "SplitMetaNamespaceKey key") (auto simp: processJob_def)
  from assms False key obtain job where job: "lister_Get env namespace name = Found job"
    by (cases "lister_Get env namespace name") (auto simp: processJob_def)
  obtain r1 gb1 where p1: "processTTL gb job now1 = (r1, gb1)" by (cases "processTTL gb job now1")
  note a1 = processTTL_api[OF p1]
  from assms False key job p1 a1 have r1: "r1 = (True, None)"
    by (cases r1) (auto simp: processJob_def split: option.splits if_splits)
  from processTTL_expired[OF p1[unfolded r1]] have e1: "ttl_expired job now1" "gb1 = gb" by simp_all
  from assms False key job p1 r1 e1 obtain fresh where fresh: "client_Get env namespace name = Found fresh"
    by (cases "client_Get env namespace name") (auto simp: processJob_def)
  obtain r2 gb2 where p2: "processTTL gb fresh now2 = (r2, gb2)" by (cases "processTTL gb fresh now2")
  note a2 = processTTL_api[OF p2]
  from assms False key job p1 r1 e1 fresh p2 a2 have r2: "r2 = (True, None)"
    by (cases r2) (auto simp: processJob_def split: option.splits if_splits)
  from processTTL_expired[OF p2[unfolded r2]] have e2: "ttl_expired fresh now2" "gb2 = gb" by simp_all
  from assms key job p1 r1 e1 fresh p2 r2 e2
  have del: "client_Delete gb (jobNamespace fresh) (jobName fresh)
               \<lparr>PropagationPolicy = Some DeletePropagationForeground,
                Preconditions_UID = Some (jobUID fresh)\<rparr> = (err, gb')"
    by (simp add: processJob_def)
  note d = client_Delete_effect[OF del]
  have "\<forall>k. apiJobs gb' k \<noteq> apiJobs gb k \<longrightarrow>
                 k = (jobNamespace fresh, jobName fresh) \<and> apiJobs gb' k = None \<and>
                 (\<exists>stored. apiJobs gb k = Some stored \<and> jobUID stored = jobUID fresh)"
  proof (intro allI impI)
    fix k assume "apiJobs gb' k \<noteq> apiJobs gb k"
    from d(2)[OF this]
    show "k = (jobNamespace fresh, jobName fresh) \<and> apiJobs gb' k = None \<and>
                 (\<exists>stored. apiJobs gb k = Some stored \<and> jobUID stored = jobUID fresh)" by auto
  qed
  moreover from p1 r1 e1(2) have "processTTL gb job now1 = ((True, None), gb)" by simp
  moreover from p2 r2 e2(2) have "processTTL gb fresh now2 = ((True, None), gb)" by simp
  ultimately show ?thesis using key job fresh e1(1) e2(1) d(1) by blast
qed

theorem processJob_deletes_only_expired_witness:
  "fst (processJob gcEnv (gcCluster ''uid-1'') ''test/job1'' (200 * Second) (201 * Second)) = None \<and>
   apiJobs (snd (processJob gcEnv (gcCluster ''uid-1'') ''test/job1'' (200 * Second) (201 * Second)))
     (''test'', ''job1'') = None \<and>
   deleteCalls (snd (processJob gcEnv (gcCluster ''uid-1'') ''test/job1'' (200 * Second) (201 * Second)))
     = [(''test'', ''job1'',
         \<lparr>PropagationPolicy = Some ''Foreground'', Preconditions_UID = Some ''uid-1''\<rparr>)] \<and>
   ttl_expired expiredJob (200 * Second) \<and>
   fst (processJob gcEnv (gcCluster ''uid-2'') ''test/job1'' (200 * Second) (201 * Second))
     = Some ApiConflict \<and>
   apiJobs (snd (processJob gcEnv (gcCluster ''uid-2'') ''test/job1'' (200 * Second) (201 * Second)))
     (''test'', ''job1'') = Some (expiredJob\<lparr>jobUID := ''uid-2''\<rparr>)"
proof -
  let ?r1 = "processJob gcEnv (gcCluster ''uid-1'') ''test/job1'' (200 * Second) (201 * Second)"
  let ?r2 = "processJob gcEnv (gcCluster ''uid-2'') ''test/job1'' (200 * Second) (201 * Second)"
  have a: "fst ?r1 = None" by code_simp
  have b: "apiJobs (snd ?r1) (''test'', ''job1'') = None" by code_simp
  have c: "deleteCalls (snd ?r1) = [(''test'', ''job1'',
         \<lparr>PropagationPolicy = Some ''Foreground'', Preconditions_UID = Some ''uid-1''\<rparr>)]"
    by code_simp
  have d: "fst ?r2 = Some ApiConflict" by code_simp
  have e: "apiJobs (snd ?r2) (''test'', ''job1'') = Some (expiredJob\<lparr>jobUID := ''uid-2''\<rparr>)"
    by code_simp
  have k: "SplitMetaNamespaceKey ''test/job1'' = Inr (''test'', ''job1'')" by code_simp
  have l: "lister_Get gcEnv ''test'' ''job1'' = Found expiredJob" by code_simp
  have s: "apiJobs (gcCluster ''uid-1'') (''test'', ''job1'') \<noteq> None" by code_simp
  from processJob_deletes_only_expired[of gcEnv "gcCluster ''uid-1''" "''test/job1''"
      "200 * Second" "201 * Second" "fst ?r1" "snd ?r1"] b s k l
  have t: "ttl_expired expiredJob (200 * Second)" by auto
  show ?thesis by (intro conjI) (rule a b c d e t)+
qed

subsection \<open>The queue admission webhooks\<close>

text \<open>
  C7: for a request with operation CREATE the mutating webhook answers with an allowed
  JSON patch that adds \<open>/spec/state = "Open"\<close> exactly when \<open>spec.state\<close> is absent and
  \<open>/spec/reclaimable = true\<close> exactly when \<open>spec.reclaimable\<close> is absent, and has no
  other entry; for a request with any other operation \<open>X\<close> it answers with a rejection
  whose message is \<open>invalid operation `X`, expect operation to be `CREATE`\<close>.
\<close>

theorem MutateQueues_response:
  "(Operation (arRequest ar) = ''CREATE'' \<longrightarrow>
      Allowed (MutateQueues ar) \<and> Result (MutateQueues ar) = None \<and>
      PatchType (MutateQueues ar) = Some ''JSONPatch'' \<and>
      (\<exists>patch. Patch (MutateQueues ar) = Some patch \<and>
         (\<lparr>Op = ''add'', Path = ''/spec/state'', Value = StringValue ''Open''\<rparr> \<in> set patch
            \<longleftrightarrow> specState (Object (arRequest ar)) = []) \<and>
         (\<lparr>Op = ''add'', Path = ''/spec/reclaimable'', Value = BoolValue True\<rparr> \<in> set patch
            \<longleftrightarrow> specReclaimable (Object (arRequest ar)) = None) \<and>
         set patch \<subseteq> {\<lparr>Op = ''add'', Path = ''/spec/state'', Value = StringValue ''Open''\<rparr>,
                       \<lparr>Op = ''add'', Path = ''/spec/reclaimable'', Value = BoolValue True\<rparr>})) \<and>
   (Operation (arRequest ar) \<noteq> ''CREATE'' \<longrightarrow>
      MutateQueues ar =
        \<lparr>Allowed = False,
         Result = Some \<lparr>Message = ''invalid operation `'' @ Operation (arRequest ar) @
                                  ''`, expect operation to be `CREATE`''\<rparr>,
         Patch = None, PatchType = None\<rparr>)"
  by (auto simp: MutateQueues_def createQueuePatch_def ToAdmissionResponse_def QueueStateOpen_def)

theorem MutateQueues_response_witness:
  "MutateQueues (testReview ''normal-case-refresh-default-state'' ''CREATE''
       (testQueue ''normal-case-refresh-default-state'' None []))
     = \<lparr>Allowed = True, Result = None,
        Patch = Some [\<lparr>Op = ''add'', Path = ''/spec/state'', Value = StringValue ''Open''\<rparr>,
                      \<lparr>Op = ''add'', Path = ''/spec/reclaimable'', Value = BoolValue True\<rparr>],
        PatchType = Some ''JSONPatch''\<rparr> \<and>
   MutateQueues (testReview ''normal-case-set-open'' ''CREATE''
       (testQueue ''normal-case-set-open'' (Some True) QueueStateOpen))
     = \<lparr>Allowed = True, Result = None,
        Patch = Some [\<lparr>Op = ''add'', Path = ''/spec/state'', Value = StringValue ''Open''\<rparr>],
        PatchType = Some ''JSONPatch''\<rparr> \<and>
   MutateQueues (testReview ''normal-case-set-open'' ''Invalid''
       (testQueue ''normal-case-set-open'' (Some True) QueueStateOpen))
     = \<lparr>Allowed = False,
        Result = Some \<lparr>Message = ''invalid operation `Invalid`, expect operation to be `CREATE`''\<rparr>,
        Patch = None, PatchType = None\<rparr>"
proof -
  let ?inv = "testReview ''normal-case-set-open'' ''Invalid''
       (testQueue ''normal-case-set-open'' (Some True) QueueStateOpen)"
  have op: "Operation (arRequest ?inv) \<noteq> ''CREATE''" by (simp add: testReview_def)
  from MutateQueues_response[of ?inv] op
  have 3: "MutateQueues ?inv = \<lparr>Allowed = False,
        Result = Some \<lparr>Message = ''invalid operation `Invalid`, expect operation to be `CREATE`''\<rparr>,
        Patch = None, PatchType = None\<rparr>"
    by (simp add: testReview_def)
  have 1: "MutateQueues (testReview ''normal-case-refresh-default-state'' ''CREATE''
       (testQueue ''normal-case-refresh-default-state'' None []))
     = \<lparr>Allowed = True, Result = None,
        Patch = Some [\<lparr>Op = ''add'', Path = ''/spec/state'', Value = StringValue ''Open''\<rparr>,
                      \<lparr>Op = ''add'', Path = ''/spec/reclaimable'', Value = BoolValue True\<rparr>],
        PatchType = Some ''JSONPatch''\<rparr>"
    by code_simp
  have 2: "MutateQueues (testReview ''normal-case-set-open'' ''CREATE''
       (testQueue ''normal-case-set-open'' (Some True) QueueStateOpen))
     = \<lparr>Allowed = True, Result = None,
        Patch = Some [\<lparr>Op = ''add'', Path = ''/spec/state'', Value = StringValue ''Open''\<rparr>],
        PatchType = Some ''JSONPatch''\<rparr>"
    by code_simp
  show ?thesis by (intro conjI) (rule 1 2 3)+
qed

text \<open>
  C6: for a request with operation DELETE the validating webhook rejects the deletion of
  the queue named \<open>default\<close>; the deletion of any other queue that the client finds is
  allowed if and only if the current state of the queue is \<open>Closed\<close>, and is otherwise
  rejected with the message \<open>only queue with state `Closed` can be deleted, queue
  `NAME` state is `STATE`\<close>; a request with an operation other than CREATE, UPDATE or
  DELETE is rejected.
\<close>

theorem AdmitQueues_delete:
  "(Operation (arRequest ar) = ''DELETE'' \<and> reqName (arRequest ar) = ''default'' \<longrightarrow>
      \<not> Allowed (AdmitQueues config ar)) \<and>
   (Operation (arRequest ar) = ''DELETE'' \<and> reqName (arRequest ar) \<noteq> ''default'' \<and>
    clientQueues config (reqName (arRequest ar)) = Some q \<longrightarrow>
      (Allowed (AdmitQueues config ar) \<longleftrightarrow> statusState q = ''Closed'') \<and>
      (statusState q \<noteq> ''Closed'' \<longrightarrow>
         AdmitQueues config ar =
           \<lparr>Allowed = False,
            Result = Some \<lparr>Message = ''only queue with state `Closed` can be deleted, queue `'' @
                                     queueName q @ ''` state is `'' @ statusState q @ ''`''\<rparr>,
            Patch = None, PatchType = None\<rparr>)) \<and>
   (Operation (arRequest ar) \<noteq> ''CREATE'' \<and> Operation (arRequest ar) \<noteq> ''UPDATE'' \<and>
    Operation (arRequest ar) \<noteq> ''DELETE'' \<longrightarrow>
      \<not> Allowed (AdmitQueues config ar))"
  by (auto simp: AdmitQueues_def validateQueueDeleting_def reviewResponse_def
        ToAdmissionResponse_def QueueStateClosed_def Let_def)

theorem AdmitQueues_delete_witness:
  "AdmitQueues testConfig (testReview ''closed-state-for-delete'' ''DELETE''
       (testQueue ''closed-state-for-delete'' None QueueStateClosed))
     = \<lparr>Allowed = True, Result = None, Patch = None, PatchType = None\<rparr> \<and>
   AdmitQueues testConfig (testReview ''open-state-for-delete'' ''DELETE''
       (testQueue ''open-state-for-delete'' None QueueStateOpen))
     = \<lparr>Allowed = False,
        Result = Some \<lparr>Message = ''only queue with state `Closed` can be deleted, queue `open-state-for-delete` state is `Open`''\<rparr>,
        Patch = None, PatchType = None\<rparr> \<and>
   AdmitQueues testConfig (testReview ''default'' ''DELETE''
       (testQueue ''open-state-for-delete'' None QueueStateOpen))
     = \<lparr>Allowed = False, Result = Some \<lparr>Message = ''`default` queue can not be deleted''\<rparr>,
        Patch = None, PatchType = None\<rparr> \<and>
   AdmitQueues testConfig (testReview ''default'' ''Invalid''
       (testQueue ''open-state-for-delete'' None QueueStateOpen))
     = \<lparr>Allowed = False,
        Result = Some \<lparr>Message = ''invalid operation `Invalid`, expect operation to be `CREATE`, `UPDATE` or `DELETE`''\<rparr>,
        Patch = None, PatchType = None\<rparr>"
proof -
  let ?open = "testReview ''open-state-for-delete'' ''DELETE''
       (testQueue ''open-state-for-delete'' None QueueStateOpen)"
  have h: "Operation (arRequest ?open) = ''DELETE''" "reqName (arRequest ?open) \<noteq> ''default''"
    "clientQueues testConfig (reqName (arRequest ?open))
       = Some (testQueue ''open-state-for-delete'' None QueueStateOpen)"
    "statusState (testQueue ''open-state-for-delete'' None QueueStateOpen) \<noteq> ''Closed''"
    by (simp_all add: testReview_def testConfig_def testQueue_def QueueStateOpen_def)
  from AdmitQueues_delete[of ?open testConfig "testQueue ''open-state-for-delete'' None QueueStateOpen"] h
  have 2: "AdmitQueues testConfig ?open
     = \<lparr>Allowed = False,
        Result = Some \<lparr>Message = ''only queue with state `Closed` can be deleted, queue `open-state-for-delete` state is `Open`''\<rparr>,
        Patch = None, PatchType = None\<rparr>"
    by (simp add: testQueue_def QueueStateOpen_def)
  have 1: "AdmitQueues testConfig (testReview ''closed-state-for-delete'' ''DELETE''
       (testQueue ''closed-state-for-delete'' None QueueStateClosed))
     = \<lparr>Allowed = True, Result = None, Patch = None, PatchType = None\<rparr>"
    by code_simp
  have 3: "AdmitQueues testConfig (testReview ''default'' ''DELETE''
       (testQueue ''open-state-for-delete'' None QueueStateOpen))
     = \<lparr>Allowed = False, Result = Some \<lparr>Message = ''`default` queue can not be deleted''\<rparr>,
        Patch = None, PatchType = None\<rparr>"
    by code_simp
  have 4: "AdmitQueues testConfig (testReview ''default'' ''Invalid''
       (testQueue ''open-state-for-delete'' None QueueStateOpen))
     = \<lparr>Allowed = False,
        Result = Some \<lparr>Message = ''invalid operation `Invalid`, expect operation to be `CREATE`, `UPDATE` or `DELETE`''\<rparr>,
        Patch = None, PatchType = None\<rparr>"
    by code_simp
  show ?thesis by (intro conjI) (rule 1 2 3 4)+
qed

end
